theory Spec2Isabelle
  imports Complex_Main "HOL-Library.Sublist"
begin

section \<open>The deals bot (src/bot.py): data\<close>

text \<open>
  \<^verbatim>\<open>bot.py\<close> holds one class, \<^verbatim>\<open>DealsBot\<close>. Its collaborators (the Telegram client, the
  deals database, the proxy manager and the deals finder) live in other modules; the bot
  only calls them. The model therefore takes them as an environment of operations on a
  world of type \<open>'w\<close>, and every method of the class becomes a function from the world to
  an outcome: the value returned or the exception raised, the world afterwards, and the
  list of calls the method made, each paired with the world it was made in.

  Python text is a list of bytes (UTF-8); the emoji of the message template are written
  byte by byte.
\<close>

subsection \<open>Exceptions\<close>

text \<open>
  The handlers of the file distinguish three kinds of raised objects: a
  \<^verbatim>\<open>TelegramError\<close>, any other instance of \<^verbatim>\<open>Exception\<close>, and an object that is a
  \<^verbatim>\<open>BaseException\<close> only (task cancellation, keyboard interrupt, system exit), which
  \<^verbatim>\<open>except Exception\<close> does not catch. \<open>str_exn\<close> is \<^verbatim>\<open>str(e)\<close>.
\<close>

datatype exn_class = TelegramError | KeyError | TypeError | OtherException | SystemExiting

datatype exn = Exn exn_class string

fun class_of :: "exn \<Rightarrow> exn_class" where
  "class_of (Exn c m) = c"

fun str_exn :: "exn \<Rightarrow> string" where
  "str_exn (Exn c m) = m"

definition is_TelegramError :: "exn \<Rightarrow> bool" where
  "is_TelegramError e = (class_of e = TelegramError)"

definition is_Exception :: "exn \<Rightarrow> bool" where
  "is_Exception e = (class_of e \<noteq> SystemExiting)"

subsection \<open>The configuration\<close>

text \<open>
  \<^verbatim>\<open>yaml.safe_load\<close> gives nested dictionaries with text and numbers at the leaves.
  \<open>subscript c k\<close> is \<^verbatim>\<open>c[k]\<close>: a \<^verbatim>\<open>KeyError\<close> when the dictionary has no such key, a
  \<^verbatim>\<open>TypeError\<close> when \<open>c\<close> is no dictionary. (The message of the \<^verbatim>\<open>KeyError\<close> is the key
  in quotes, as Python prints it; the wording of the \<^verbatim>\<open>TypeError\<close> varies with the Python
  version and the model fixes one.)
\<close>

datatype yaml = YStr string | YNum rat | YDict "(string \<times> yaml) list"

fun subscript :: "yaml \<Rightarrow> string \<Rightarrow> exn + yaml" where
  "subscript (YDict kvs) k =
     (case map_of kvs k of
        None \<Rightarrow> Inl (Exn KeyError ([CHR 0x27] @ k @ [CHR 0x27]))
      | Some v \<Rightarrow> Inr v)"
| "subscript (YStr s) k = Inl (Exn TypeError ''string indices must be integers'')"
| "subscript (YNum r) k = Inl (Exn TypeError ''object is not subscriptable'')"

definition subscript2 :: "yaml \<Rightarrow> string \<Rightarrow> string \<Rightarrow> exn + yaml" where
  "subscript2 c k1 k2 =
     (case subscript c k1 of Inl e \<Rightarrow> Inl e | Inr c1 \<Rightarrow> subscript c1 k2)"

definition subscript3 :: "yaml \<Rightarrow> string \<Rightarrow> string \<Rightarrow> string \<Rightarrow> exn + yaml" where
  "subscript3 c k1 k2 k3 =
     (case subscript2 c k1 k2 of Inl e \<Rightarrow> Inl e | Inr c2 \<Rightarrow> subscript c2 k3)"

text \<open>
  \<open>py_str\<close> is \<^verbatim>\<open>str(v)\<close>, which an f-string applies to a value without a format: text is
  itself; for a number or a dictionary it is the printed form \<^verbatim>\<open>repr(v)\<close>, which the
  model takes from the environment.
\<close>

definition py_str :: "(yaml \<Rightarrow> string) \<Rightarrow> yaml \<Rightarrow> string" where
  "py_str repr v = (case v of YStr s \<Rightarrow> s | _ \<Rightarrow> repr v)"

text \<open>
  \<open>py_times_60 v\<close> is \<^verbatim>\<open>v * 60\<close>: a number is multiplied, text is repeated, a
  dictionary raises.
\<close>

fun py_times_60 :: "yaml \<Rightarrow> exn + yaml" where
  "py_times_60 (YNum r) = Inr (YNum (r * 60))"
| "py_times_60 (YStr s) = Inr (YStr (concat (replicate 60 s)))"
| "py_times_60 (YDict kvs) = Inl (Exn TypeError ''unsupported operand type(s) for *'')"

subsection \<open>Deals, statistics, the clock\<close>

text \<open>
  A deal is the dictionary the deals finder returns; the bot reads the seven keys below.

  Modelled from the spec: the type of the prices. The deals finder and the database, which
  produce them, are not part of this file; the spec's data model calls them decimals in
  currency units. They are exact rationals here, and \<open>original_price - sale_price\<close> is
  exact (binary floating point would round the difference).
\<close>

record deal =
  asin :: string
  title :: string
  sale_price :: rat
  original_price :: rat
  discount :: int
  category :: string
  url :: string

record deal_stats =
  lowest_price :: rat
  times_posted :: int

record datetime =
  year :: nat
  month :: nat
  day :: nat
  hour :: nat
  minute :: nat
  second :: nat

subsection \<open>Formatting numbers and text\<close>

definition digit_char :: "nat \<Rightarrow> char" where
  "digit_char n = ''0123456789'' ! (n mod 10)"

fun show_nat :: "nat \<Rightarrow> string" where
  "show_nat n = (if n < 10 then [digit_char n] else show_nat (n div 10) @ [digit_char n])"

declare show_nat.simps [simp del]

definition show_int :: "int \<Rightarrow> string" where
  "show_int i = (if i < 0 then ''-'' @ show_nat (nat (- i)) else show_nat (nat i))"

text \<open>
  \<open>fmt2 x\<close> is \<^verbatim>\<open>f"{x:.2f}"\<close>: the value rounded to hundredths, ties to the even
  neighbour, printed with the integer part, a point and two digits; a negative value
  keeps its sign even when it rounds to zero.
\<close>

definition round_half_even :: "rat \<Rightarrow> int" where
  "round_half_even q =
     (let f = \<lfloor>q\<rfloor>; r = q - of_int f
      in if r < 1 / 2 then f else if 1 / 2 < r then f + 1 else if even f then f else f + 1)"

definition hundredths :: "rat \<Rightarrow> nat" where
  "hundredths x = nat (round_half_even (\<bar>x\<bar> * 100))"

definition fmt2 :: "rat \<Rightarrow> string" where
  "fmt2 x =
     (if x < 0 then ''-'' else '''') @ show_nat (hundredths x div 100) @ ''.''
       @ [digit_char (hundredths x div 10), digit_char (hundredths x)]"

text \<open>
  \<open>py_capitalize\<close> is \<^verbatim>\<open>str.capitalize()\<close>. On ASCII text it is the first character in
  upper case and all the others in lower case (\<open>ascii_capitalize\<close>). On text with a
  character outside ASCII the result follows the case tables of Unicode, which are no
  part of this file: there the model takes the result from the environment
  (\<open>unicode_capitalize\<close>, given to \<open>py_capitalize\<close> as its first argument).
\<close>

definition ascii_upper :: "char \<Rightarrow> char" where
  "ascii_upper c =
     (if (97::nat) \<le> of_char c \<and> of_char c \<le> (122::nat) then char_of (of_char c - (32::nat)) else c)"

definition ascii_lower :: "char \<Rightarrow> char" where
  "ascii_lower c =
     (if (65::nat) \<le> of_char c \<and> of_char c \<le> (90::nat) then char_of (of_char c + (32::nat)) else c)"

definition is_ascii :: "char \<Rightarrow> bool" where
  "is_ascii c = (of_char c < (128::nat))"

fun ascii_capitalize :: "string \<Rightarrow> string" where
  "ascii_capitalize [] = []"
| "ascii_capitalize (c # cs) = ascii_upper c # map ascii_lower cs"

definition py_capitalize :: "(string \<Rightarrow> string) \<Rightarrow> string \<Rightarrow> string" where
  "py_capitalize unicode s = (if list_all is_ascii s then ascii_capitalize s else unicode s)"

text \<open>\<open>strftime\<close> is \<^verbatim>\<open>strftime('%Y-%m-%d %H:%M:%S')\<close>.\<close>

definition pad2 :: "nat \<Rightarrow> string" where
  "pad2 n = (if n < 10 then ''0'' @ show_nat n else show_nat n)"

definition strftime :: "datetime \<Rightarrow> string" where
  "strftime t =
     show_nat (year t) @ ''-'' @ pad2 (month t) @ ''-'' @ pad2 (day t) @ '' ''
       @ pad2 (hour t) @ '':'' @ pad2 (minute t) @ '':'' @ pad2 (second t)"

section \<open>Effects\<close>

text \<open>
  The calls the bot makes. A \<open>Poll\<close> is a read of \<^verbatim>\<open>self.running\<close> with the value
  read; a \<open>Sleep\<close> is an \<^verbatim>\<open>asyncio.sleep\<close> with the place of the call in
  \<^verbatim>\<open>run_forever\<close> (after a posted deal, between two cycles, in the exception handler of
  the loop) and the seconds.
\<close>

datatype sleep_site = Throttle | Interval | Cooldown

datatype event =
    Poll bool
  | Log_info string
  | Log_error string
  | Proxy_initialize
  | Clean_old_deals yaml
  | Get_working_proxy
  | Get_deals
  | Is_duplicate_deal string rat
  | Get_deal_stats string
  | Datetime_now
  | Send_message yaml string bool
  | Update_deal deal
  | Sleep sleep_site rat

text \<open>
  The environment: everything \<^verbatim>\<open>bot.py\<close> calls and does not define. Each operation
  takes the world and returns the value or the exception together with the new world.
  \<^verbatim>\<open>self.running\<close> is set to \<^verbatim>\<open>True\<close> by the constructor and written by nobody in this
  file afterwards; whoever stops the bot does so while the bot is inside one of the
  operations, so the flag is read off the world. \<open>get_deals\<close> stands for building the
  \<^verbatim>\<open>DealsFinder\<close> and awaiting its \<^verbatim>\<open>get_deals()\<close>. \<open>py_repr\<close> and
  \<open>unicode_capitalize\<close> are what Python itself brings: the printed form of a value that is
  no text, and \<^verbatim>\<open>str.capitalize()\<close> on text that is not ASCII.
\<close>

record 'w env =
  running :: "'w \<Rightarrow> bool"
  now :: "'w \<Rightarrow> datetime"
  py_repr :: "yaml \<Rightarrow> string"
  unicode_capitalize :: "string \<Rightarrow> string"
  new_Bot :: "yaml \<Rightarrow> exn + unit"
  new_DealsDatabase :: "yaml \<Rightarrow> exn + unit"
  new_ProxyManager :: "yaml \<Rightarrow> exn + unit"
  proxy_initialize :: "'w \<Rightarrow> (exn + unit) \<times> 'w"
  clean_old_deals :: "'w \<Rightarrow> yaml \<Rightarrow> (exn + unit) \<times> 'w"
  get_working_proxy :: "'w \<Rightarrow> (exn + unit) \<times> 'w"
  get_deals :: "'w \<Rightarrow> (exn + deal list) \<times> 'w"
  is_duplicate_deal :: "'w \<Rightarrow> string \<Rightarrow> rat \<Rightarrow> (exn + bool) \<times> 'w"
  get_deal_stats :: "'w \<Rightarrow> string \<Rightarrow> (exn + deal_stats option) \<times> 'w"
  send_message :: "'w \<Rightarrow> yaml \<Rightarrow> string \<Rightarrow> bool \<Rightarrow> (exn + unit) \<times> 'w"
  update_deal :: "'w \<Rightarrow> deal \<Rightarrow> (exn + unit) \<times> 'w"
  sleep :: "'w \<Rightarrow> rat \<Rightarrow> (exn + unit) \<times> 'w"

type_synonym 'w trace = "('w \<times> event) list"

type_synonym ('a, 'w) outcome = "(exn + 'a) \<times> 'w \<times> 'w trace"

type_synonym ('a, 'w) act = "'w \<Rightarrow> ('a, 'w) outcome"

definition result_of :: "('a, 'w) outcome \<Rightarrow> exn + 'a" where
  "result_of r = fst r"

definition world_of :: "('a, 'w) outcome \<Rightarrow> 'w" where
  "world_of r = fst (snd r)"

definition trace_of :: "('a, 'w) outcome \<Rightarrow> 'w trace" where
  "trace_of r = snd (snd r)"

definition events_of :: "('a, 'w) outcome \<Rightarrow> event list" where
  "events_of r = map snd (trace_of r)"

text \<open>\<open>after t r\<close> is the outcome \<open>r\<close> with the calls \<open>t\<close> made before it.\<close>

definition after :: "'w trace \<Rightarrow> ('a, 'w) outcome \<Rightarrow> ('a, 'w) outcome" where
  "after t r = (case r of (x, w, t') \<Rightarrow> (x, w, t @ t'))"

definition act_return :: "'a \<Rightarrow> ('a, 'w) act" where
  "act_return a w = (Inr a, w, [])"

definition act_lift :: "exn + 'a \<Rightarrow> ('a, 'w) act" where
  "act_lift r w = (r, w, [])"

text \<open>Sequencing: an exception of the first part skips the second.\<close>

definition act_bind :: "('a, 'w) act \<Rightarrow> ('a \<Rightarrow> ('b, 'w) act) \<Rightarrow> ('b, 'w) act" where
  "act_bind m f w =
     (case m w of
        (Inl e, w1, t1) \<Rightarrow> (Inl e, w1, t1)
      | (Inr a, w1, t1) \<Rightarrow> after t1 (f a w1))"

definition emit :: "event \<Rightarrow> (unit, 'w) act" where
  "emit e w = (Inr (), w, [(w, e)])"

definition call :: "event \<Rightarrow> ('w \<Rightarrow> (exn + 'a) \<times> 'w) \<Rightarrow> ('a, 'w) act" where
  "call e f w = (case f w of (r, w1) \<Rightarrow> (r, w1, [(w, e)]))"

definition poll_running :: "'w env \<Rightarrow> (bool, 'w) act" where
  "poll_running E w = (Inr (running E w), w, [(w, Poll (running E w))])"

definition read_clock :: "'w env \<Rightarrow> (datetime, 'w) act" where
  "read_clock E w = (Inr (now E w), w, [(w, Datetime_now)])"

text \<open>
  \<^verbatim>\<open>await asyncio.sleep(v)\<close>: a number is slept (others may run meanwhile); anything
  else raises a \<^verbatim>\<open>TypeError\<close> before any waiting.
\<close>

definition py_sleep :: "'w env \<Rightarrow> sleep_site \<Rightarrow> yaml \<Rightarrow> (unit, 'w) act" where
  "py_sleep E site v =
     (case v of
        YNum r \<Rightarrow> call (Sleep site r) (\<lambda>w. sleep E w r)
      | _ \<Rightarrow> act_lift (Inl (Exn TypeError ''not supported between instances'')))"

section \<open>The class DealsBot\<close>

text \<open>The attributes of \<^verbatim>\<open>self\<close> that are data: the loaded configuration and the channel.\<close>

record bot =
  config :: yaml
  channel_id :: yaml

subsection \<open>\<^verbatim>\<open>__init__\<close> (lines 14-24) and \<^verbatim>\<open>initialize\<close> (lines 26-28)\<close>

text \<open>
  The constructor receives the configuration as \<^verbatim>\<open>yaml.safe_load\<close> returned it. It reads
  four keys, in this order, and builds the three collaborators.
\<close>

definition bind_exn :: "exn + 'a \<Rightarrow> ('a \<Rightarrow> exn + 'b) \<Rightarrow> exn + 'b" where
  "bind_exn r f = (case r of Inl e \<Rightarrow> Inl e | Inr a \<Rightarrow> f a)"

definition init :: "'w env \<Rightarrow> yaml \<Rightarrow> exn + bot" where
  "init E cfg =
     bind_exn (subscript2 cfg ''telegram'' ''bot_token'') (\<lambda>token.
     bind_exn (new_Bot E token) (\<lambda>_.
     bind_exn (subscript2 cfg ''telegram'' ''channel_id'') (\<lambda>channel.
     bind_exn (subscript2 cfg ''database'' ''path'') (\<lambda>path.
     bind_exn (new_DealsDatabase E path) (\<lambda>_.
     bind_exn (subscript2 cfg ''scraping'' ''max_proxies'') (\<lambda>max_proxies.
     bind_exn (new_ProxyManager E max_proxies) (\<lambda>_.
     Inr \<lparr>config = cfg, channel_id = channel\<rparr>)))))))"

definition initialize :: "bot \<Rightarrow> 'w env \<Rightarrow> (unit, 'w) act" where
  "initialize self E =
     act_bind (call Proxy_initialize (proxy_initialize E)) (\<lambda>_.
     act_bind (act_lift (subscript2 (config self) ''database'' ''retention_days'')) (\<lambda>days.
     call (Clean_old_deals days) (\<lambda>w. clean_old_deals E w days)))"

subsection \<open>\<^verbatim>\<open>_generate_affiliate_link\<close> (lines 73-77)\<close>

definition generate_affiliate_link :: "bot \<Rightarrow> 'w env \<Rightarrow> string \<Rightarrow> exn + string" where
  "generate_affiliate_link self E u =
     bind_exn (subscript2 (config self) ''amazon'' ''affiliate_id'') (\<lambda>affiliate_id.
     if CHR ''?'' \<in> set u then Inr (u @ ''&tag='' @ py_str (py_repr E) affiliate_id)
     else Inr (u @ ''?tag='' @ py_str (py_repr E) affiliate_id))"

subsection \<open>\<^verbatim>\<open>_format_deal_message\<close> (lines 47-71)\<close>

definition nl :: string where
  "nl = [CHR 0x0A]"

definition emoji_fire :: string where
  "emoji_fire = [CHR 0xF0, CHR 0x9F, CHR 0x94, CHR 0xA5]"

definition emoji_package :: string where
  "emoji_package = [CHR 0xF0, CHR 0x9F, CHR 0x93, CHR 0xA6]"

definition emoji_money_bag :: string where
  "emoji_money_bag = [CHR 0xF0, CHR 0x9F, CHR 0x92, CHR 0xB0]"

definition emoji_cross :: string where
  "emoji_cross = [CHR 0xE2, CHR 0x9D, CHR 0x8C]"

definition emoji_hundred :: string where
  "emoji_hundred = [CHR 0xF0, CHR 0x9F, CHR 0x92, CHR 0xAF]"

definition emoji_chart :: string where
  "emoji_chart = [CHR 0xF0, CHR 0x9F, CHR 0x92, CHR 0xB9]"

definition emoji_bars :: string where
  "emoji_bars = [CHR 0xF0, CHR 0x9F, CHR 0x93, CHR 0x8A]"

definition emoji_bags :: string where
  "emoji_bags = [CHR 0xF0, CHR 0x9F, CHR 0x9B, CHR 0x8D, CHR 0xEF, CHR 0xB8, CHR 0x8F]"

text \<open>Lines 50-55: the block on the price history, empty unless the test of line 51 holds.\<close>

definition history_block :: "deal_stats \<Rightarrow> string" where
  "history_block st =
     nl @ emoji_chart @ '' Lowest Price: $'' @ fmt2 (lowest_price st) @ nl
       @ emoji_bars @ '' Times Listed: '' @ show_int (times_posted st)"

definition price_history :: "deal_stats option \<Rightarrow> string" where
  "price_history stats =
     (case stats of
        None \<Rightarrow> []
      | Some st \<Rightarrow> if times_posted st > 1 then history_block st else [])"

text \<open>
  Lines 59-70: the f-string, with the block, the link and the formatted time of the clock
  as they were computed before: what stands before \<^verbatim>\<open>{price_history}\<close> (lines 60-65),
  the block, and what stands after it (lines 66-69).
\<close>

definition hashtag_line :: "(string \<Rightarrow> string) \<Rightarrow> deal \<Rightarrow> string" where
  "hashtag_line unicode d =
     ''#'' @ py_capitalize unicode (category d) @ '' #AmazonDeals #Discount'' @ nl"

definition savings_line :: "deal \<Rightarrow> string" where
  "savings_line d =
     emoji_hundred @ '' Save: '' @ show_int (discount d) @ ''% ''
       @ ''($'' @ fmt2 (original_price d - sale_price d) @ '')''"

definition message_head :: "deal \<Rightarrow> string" where
  "message_head d =
     emoji_fire @ '' HOT DEAL ALERT! '' @ emoji_fire @ nl @ nl
       @ emoji_package @ '' '' @ title d @ nl @ nl
       @ emoji_money_bag @ '' Sale Price: $'' @ fmt2 (sale_price d) @ nl
       @ emoji_cross @ '' Original: $'' @ fmt2 (original_price d) @ nl
       @ savings_line d"

definition message_tail :: "(string \<Rightarrow> string) \<Rightarrow> deal \<Rightarrow> string \<Rightarrow> string \<Rightarrow> string" where
  "message_tail unicode d affiliate_link posted =
     nl @ nl
       @ emoji_bags @ '' Buy Now: '' @ affiliate_link @ nl @ nl
       @ hashtag_line unicode d
       @ ''Posted: '' @ posted"

definition message_text ::
  "(string \<Rightarrow> string) \<Rightarrow> deal \<Rightarrow> string \<Rightarrow> string \<Rightarrow> string \<Rightarrow> string" where
  "message_text unicode d history affiliate_link posted =
     message_head d @ history @ message_tail unicode d affiliate_link posted"

definition format_deal_message :: "bot \<Rightarrow> 'w env \<Rightarrow> deal \<Rightarrow> (string, 'w) act" where
  "format_deal_message self E d =
     act_bind (call (Get_deal_stats (asin d)) (\<lambda>w. get_deal_stats E w (asin d))) (\<lambda>stats.
     act_bind (act_lift (generate_affiliate_link self E (url d))) (\<lambda>affiliate_link.
     act_bind (read_clock E) (\<lambda>t.
     act_return
       (message_text (unicode_capitalize E) d (price_history stats) affiliate_link (strftime t)))))"

subsection \<open>\<^verbatim>\<open>post_deal\<close> (lines 30-45)\<close>

text \<open>
  The body of the \<^verbatim>\<open>try\<close>, then the two handlers in their order. An object that is no
  \<^verbatim>\<open>Exception\<close> leaves the method.
\<close>

definition post_deal_body :: "bot \<Rightarrow> 'w env \<Rightarrow> deal \<Rightarrow> (bool, 'w) act" where
  "post_deal_body self E d =
     act_bind (format_deal_message self E d) (\<lambda>message.
     act_bind (call (Send_message (channel_id self) message False)
                 (\<lambda>w. send_message E w (channel_id self) message False)) (\<lambda>_.
     act_bind (call (Update_deal d) (\<lambda>w. update_deal E w d)) (\<lambda>_.
     act_return True)))"

definition post_deal :: "bot \<Rightarrow> 'w env \<Rightarrow> deal \<Rightarrow> (bool, 'w) act" where
  "post_deal self E d w =
     (case post_deal_body self E d w of
        (Inr b, w1, t1) \<Rightarrow> (Inr b, w1, t1)
      | (Inl e, w1, t1) \<Rightarrow>
          if is_TelegramError e
          then (Inr False, w1, t1 @ [(w1, Log_error (''Telegram error: '' @ str_exn e))])
          else if is_Exception e
          then (Inr False, w1, t1 @ [(w1, Log_error (''Error posting deal: '' @ str_exn e))])
          else (Inl e, w1, t1))"

subsection \<open>\<^verbatim>\<open>run_forever\<close> (lines 79-121)\<close>

text \<open>
  Lines 103-108: the deal is posted; a posted deal is counted and followed by the pause
  between two requests. The function returns the count.
\<close>

definition post_and_throttle :: "bot \<Rightarrow> 'w env \<Rightarrow> deal \<Rightarrow> nat \<Rightarrow> (nat, 'w) act" where
  "post_and_throttle self E d posted_count =
     act_bind (post_deal self E d) (\<lambda>success.
     if success then
       act_bind (act_lift (subscript3 (config self) ''scraping'' ''request_delay'' ''min''))
         (\<lambda>delay.
       act_bind (py_sleep E Throttle delay) (\<lambda>_.
       act_return (posted_count + 1)))
     else act_return posted_count)"

text \<open>
  Lines 96-108, one pass of the \<^verbatim>\<open>for\<close>: \<open>Break\<close> is the \<^verbatim>\<open>break\<close> of line 97,
  \<open>Continue\<close> the end of the pass; both carry the count.
\<close>

datatype step = Break nat | Continue nat

definition deal_iteration :: "bot \<Rightarrow> 'w env \<Rightarrow> deal \<Rightarrow> nat \<Rightarrow> (step, 'w) act" where
  "deal_iteration self E d posted_count =
     act_bind (poll_running E) (\<lambda>r.
     if \<not> r then act_return (Break posted_count)
     else
       act_bind (call (Is_duplicate_deal (asin d) (sale_price d))
                   (\<lambda>w. is_duplicate_deal E w (asin d) (sale_price d))) (\<lambda>dup.
       if \<not> dup then
         act_bind (post_and_throttle self E d posted_count) (\<lambda>n. act_return (Continue n))
       else act_return (Continue posted_count)))"

text \<open>Lines 95-108: the \<^verbatim>\<open>for\<close> over the deals of the cycle.\<close>

fun for_deals :: "bot \<Rightarrow> 'w env \<Rightarrow> deal list \<Rightarrow> nat \<Rightarrow> (nat, 'w) act" where
  "for_deals self E [] posted_count = act_return posted_count"
| "for_deals self E (d # ds) posted_count =
     act_bind (deal_iteration self E d posted_count) (\<lambda>s.
     case s of
       Break n \<Rightarrow> act_return n
     | Continue n \<Rightarrow> for_deals self E ds n)"

text \<open>Lines 110-115: the count is logged, and the bot sleeps until the next cycle if it still runs.\<close>

definition finish_cycle :: "bot \<Rightarrow> 'w env \<Rightarrow> nat \<Rightarrow> (unit, 'w) act" where
  "finish_cycle self E posted_count =
     act_bind (emit (Log_info (''Posted '' @ show_nat posted_count @ '' new deals''))) (\<lambda>_.
     act_bind (poll_running E) (\<lambda>r.
     if r then
       act_bind (act_lift (subscript2 (config self) ''scraping'' ''update_interval_minutes''))
         (\<lambda>minutes.
       act_bind (act_lift (py_times_60 minutes)) (\<lambda>seconds.
       py_sleep E Interval seconds))
     else act_return ()))"

text \<open>Lines 85-115: the body of the \<^verbatim>\<open>try\<close> of the loop.\<close>

definition cycle :: "bot \<Rightarrow> 'w env \<Rightarrow> (unit, 'w) act" where
  "cycle self E =
     act_bind (call Get_working_proxy (get_working_proxy E)) (\<lambda>proxy.
     act_bind (call Get_deals (get_deals E)) (\<lambda>deals.
     act_bind (emit (Log_info (''Found '' @ show_nat (length deals) @ '' potential deals'')))
       (\<lambda>_.
     act_bind (for_deals self E deals 0) (\<lambda>posted_count.
     finish_cycle self E posted_count))))"

text \<open>Lines 84-119: the \<^verbatim>\<open>try\<close> with its handler, one pass of the \<^verbatim>\<open>while\<close>.\<close>

definition loop_body :: "bot \<Rightarrow> 'w env \<Rightarrow> (unit, 'w) act" where
  "loop_body self E w =
     (case cycle self E w of
        (Inr u, w1, t1) \<Rightarrow> (Inr u, w1, t1)
      | (Inl e, w1, t1) \<Rightarrow>
          if is_Exception e
          then after (t1 @ [(w1, Log_error (''Error in main loop: '' @ str_exn e))])
                 (py_sleep E Cooldown (YNum 60) w1)
          else (Inl e, w1, t1))"

text \<open>
  Lines 83-119: the \<^verbatim>\<open>while self.running\<close>. The loop need not end, so the model counts
  the passes it may still make: \<open>Returned\<close> is the loop left because the flag was read
  false, \<open>Still_looping\<close> is the budget of passes used up with the loop still going.
\<close>

datatype loop_end = Returned | Still_looping

fun run_loop :: "nat \<Rightarrow> bot \<Rightarrow> 'w env \<Rightarrow> (loop_end, 'w) act" where
  "run_loop 0 self E = act_return Still_looping"
| "run_loop (Suc n) self E =
     act_bind (poll_running E) (\<lambda>r.
     if r then act_bind (loop_body self E) (\<lambda>_. run_loop n self E)
     else act_return Returned)"

definition run_forever :: "nat \<Rightarrow> bot \<Rightarrow> 'w env \<Rightarrow> (loop_end, 'w) act" where
  "run_forever n self E =
     act_bind (emit (Log_info ''Starting Deals Bot...'')) (\<lambda>_.
     act_bind (initialize self E) (\<lambda>_.
     act_bind (run_loop n self E) (\<lambda>l.
     case l of
       Returned \<Rightarrow> act_bind (emit (Log_info ''Bot shutdown complete.'')) (\<lambda>_. act_return Returned)
     | Still_looping \<Rightarrow> act_return Still_looping)))"

section \<open>A store and an environment to run the bot in\<close>

text \<open>
  Modelled from the spec: the duplicate check of the store (\<^verbatim>\<open>DealsDatabase\<close>, which is not
  part of this file). The spec: a deal is a duplicate iff a prior record exists for that
  identifier at that exact sale price. The store is the list of the records made, each an
  identifier with a sale price.
\<close>

definition spec_is_duplicate_deal :: "(string \<times> rat) list \<Rightarrow> string \<Rightarrow> rat \<Rightarrow> bool" where
  "spec_is_duplicate_deal recs a p = ((a, p) \<in> set recs)"

text \<open>
  The world of the runs below: the operations begun so far and the records of the store.
  Every operation of the environment takes one tick. The environment is given the tick
  from which on the bot is told to stop, the operations that raise (by the tick they
  begin at) and the deals a discovery returns. The store records a posted deal, and its
  statistics are the lowest recorded price and the number of records of an identifier. The
  clock shows the tick as seconds.
\<close>

record world =
  ticks :: nat
  records :: "(string \<times> rat) list"

definition tick :: "world \<Rightarrow> world" where
  "tick w = w\<lparr>ticks := Suc (ticks w)\<rparr>"

definition operation :: "(nat \<Rightarrow> exn option) \<Rightarrow> (world \<Rightarrow> 'a \<times> world) \<Rightarrow> world \<Rightarrow> (exn + 'a) \<times> world" where
  "operation faults f w =
     (case faults (ticks w) of
        Some e \<Rightarrow> (Inl e, tick w)
      | None \<Rightarrow> (case f w of (a, w1) \<Rightarrow> (Inr a, tick w1)))"

definition store_stats :: "(string \<times> rat) list \<Rightarrow> string \<Rightarrow> deal_stats option" where
  "store_stats recs a =
     (case map snd (filter (\<lambda>r. fst r = a) recs) of
        [] \<Rightarrow> None
      | p # ps \<Rightarrow> Some \<lparr>lowest_price = fold min ps p, times_posted = int (length (p # ps))\<rparr>)"

text \<open>
  The environment below capitalizes text written with ASCII and with the letters of the
  Latin-1 supplement (two bytes in UTF-8, the first of them \<open>0xC3\<close>; the micro sign has
  \<open>0xC2\<close>); other characters are left as they are.
\<close>

definition latin1_lower_byte :: "char \<Rightarrow> char" where
  "latin1_lower_byte b =
     (if (0x80::nat) \<le> of_char b \<and> of_char b \<le> (0x9E::nat) \<and> b \<noteq> CHR 0x97
      then char_of (of_char b + (0x20::nat)) else b)"

fun latin1_lower :: "string \<Rightarrow> string" where
  "latin1_lower [] = []"
| "latin1_lower [c] = [ascii_lower c]"
| "latin1_lower (c # b # cs) =
     (if c = CHR 0xC3 then c # latin1_lower_byte b # latin1_lower cs
      else ascii_lower c # latin1_lower (b # cs))"

definition latin1_capitalize :: "string \<Rightarrow> string" where
  "latin1_capitalize s =
     (case s of
        [] \<Rightarrow> []
      | [c] \<Rightarrow> [ascii_upper c]
      | c # b # cs \<Rightarrow>
          if c = CHR 0xC3 \<and> b = CHR 0x9F then ''Ss'' @ latin1_lower cs
          else if c = CHR 0xC3 \<and> b = CHR 0xBF then [CHR 0xC5, CHR 0xB8] @ latin1_lower cs
          else if c = CHR 0xC2 \<and> b = CHR 0xB5 then [CHR 0xCE, CHR 0x9C] @ latin1_lower cs
          else if c = CHR 0xC3 \<and> (0xA0::nat) \<le> of_char b \<and> of_char b \<le> (0xBE::nat)
                  \<and> b \<noteq> CHR 0xB7
          then c # char_of (of_char b - (0x20::nat)) # latin1_lower cs
          else if c = CHR 0xC3 then c # b # latin1_lower cs
          else ascii_upper c # latin1_lower (b # cs))"

definition demo_env :: "nat \<Rightarrow> (nat \<Rightarrow> exn option) \<Rightarrow> deal list \<Rightarrow> world env" where
  "demo_env stop faults batch =
     \<lparr> running = (\<lambda>w. ticks w < stop),
       now = (\<lambda>w. \<lparr>year = 2024, month = 5, day = 17, hour = 9, minute = 30, second = ticks w\<rparr>),
       py_repr = (\<lambda>v. ''{}''),
       unicode_capitalize = latin1_capitalize,
       new_Bot = (\<lambda>v. Inr ()),
       new_DealsDatabase = (\<lambda>v. Inr ()),
       new_ProxyManager = (\<lambda>v. Inr ()),
       proxy_initialize = operation faults (\<lambda>w. ((), w)),
       clean_old_deals = (\<lambda>w days. operation faults (\<lambda>w. ((), w)) w),
       get_working_proxy = operation faults (\<lambda>w. ((), w)),
       get_deals = operation faults (\<lambda>w. (batch, w)),
       is_duplicate_deal = (\<lambda>w a p. operation faults (\<lambda>w. (spec_is_duplicate_deal (records w) a p, w)) w),
       get_deal_stats = (\<lambda>w a. operation faults (\<lambda>w. (store_stats (records w) a, w)) w),
       send_message = (\<lambda>w c m b. operation faults (\<lambda>w. ((), w)) w),
       update_deal = (\<lambda>w d. operation faults (\<lambda>w. ((), w\<lparr>records := records w @ [(asin d, sale_price d)]\<rparr>)) w),
       sleep = (\<lambda>w r. operation faults (\<lambda>w. ((), w)) w) \<rparr>"

definition no_faults :: "nat \<Rightarrow> exn option" where
  "no_faults t = None"

definition fault_at :: "nat \<Rightarrow> exn \<Rightarrow> nat \<Rightarrow> exn option" where
  "fault_at k e t = (if t = k then Some e else None)"

definition config_with ::
  "(string \<times> yaml) list \<Rightarrow> (string \<times> yaml) list \<Rightarrow> (string \<times> yaml) list \<Rightarrow> yaml" where
  "config_with database scraping amazon =
     YDict [(''telegram'', YDict [(''bot_token'', YStr ''123:abc''), (''channel_id'', YStr ''@deals'')]),
            (''database'', YDict database),
            (''scraping'', YDict ((''max_proxies'', YNum 5) # scraping)),
            (''amazon'', YDict amazon)]"

definition demo_config :: yaml where
  "demo_config =
     config_with [(''path'', YStr ''deals.db''), (''retention_days'', YNum 30)]
       [(''request_delay'', YDict [(''min'', YNum 2)]), (''update_interval_minutes'', YNum 15)]
       [(''affiliate_id'', YStr ''abc'')]"

definition no_retention_config :: yaml where
  "no_retention_config =
     config_with [(''path'', YStr ''deals.db'')]
       [(''request_delay'', YDict [(''min'', YNum 2)]), (''update_interval_minutes'', YNum 15)]
       [(''affiliate_id'', YStr ''abc'')]"

definition no_affiliate_config :: yaml where
  "no_affiliate_config =
     config_with [(''path'', YStr ''deals.db''), (''retention_days'', YNum 30)]
       [(''request_delay'', YDict [(''min'', YNum 2)]), (''update_interval_minutes'', YNum 15)]
       []"

definition no_delay_config :: yaml where
  "no_delay_config =
     config_with [(''path'', YStr ''deals.db''), (''retention_days'', YNum 30)]
       [(''update_interval_minutes'', YNum 15)]
       [(''affiliate_id'', YStr ''abc'')]"

definition no_interval_config :: yaml where
  "no_interval_config =
     config_with [(''path'', YStr ''deals.db''), (''retention_days'', YNum 30)]
       [(''request_delay'', YDict [(''min'', YNum 2)])]
       [(''affiliate_id'', YStr ''abc'')]"

definition bot_of :: "yaml \<Rightarrow> bot" where
  "bot_of cfg = \<lparr>config = cfg, channel_id = YStr ''@deals''\<rparr>"

definition demo_bot :: bot where
  "demo_bot = \<lparr>config = demo_config, channel_id = YStr ''@deals''\<rparr>"

definition kettle :: deal where
  "kettle =
     \<lparr>asin = ''B000KETTLE'', title = ''Steel kettle'', sale_price = 1999 / 100,
      original_price = 2999 / 100, discount = 33, category = ''kitchen'',
      url = ''https://x/y''\<rparr>"

definition lamp :: deal where
  "lamp =
     \<lparr>asin = ''B000LAMP'', title = ''Desk lamp'', sale_price = 25 / 2,
      original_price = 20, discount = 37, category = ''tV'',
      url = ''https://x/y?z=1''\<rparr>"


definition start :: world where
  "start = \<lparr>ticks = 0, records = []\<rparr>"

definition later :: world where
  "later = \<lparr>ticks = 40, records = []\<rparr>"

definition seen_once :: world where
  "seen_once = \<lparr>ticks = 0, records = [(''B000KETTLE'', 2499 / 100)]\<rparr>"

definition seen_thrice :: world where
  "seen_thrice =
     \<lparr>ticks = 0,
      records = [(''B000KETTLE'', 2499 / 100), (''B000KETTLE'', 1999 / 100),
                 (''B000KETTLE'', 2199 / 100)]\<rparr>"

definition seen_same :: world where
  "seen_same = \<lparr>ticks = 0, records = [(''B000KETTLE'', 1999 / 100)]\<rparr>"

section \<open>The vocabulary of the properties\<close>






text \<open>
  The calls that render, publish and persist a deal: the lookup of the statistics and
  the reading of the clock (rendering), the sending, the upsert.
\<close>

definition posting_event :: "event \<Rightarrow> bool" where
  "posting_event e =
     (case e of
        Get_deal_stats a \<Rightarrow> True
      | Datetime_now \<Rightarrow> True
      | Send_message c m b \<Rightarrow> True
      | Update_deal d \<Rightarrow> True
      | _ \<Rightarrow> False)"

text \<open>An upsert that returned: the deal is recorded.\<close>

definition persisted :: "'w env \<Rightarrow> 'w \<times> event \<Rightarrow> bool" where
  "persisted E we =
     (case snd we of
        Update_deal d \<Rightarrow> \<not> isl (fst (update_deal E (fst we) d))
      | _ \<Rightarrow> False)"

text \<open>
  The spec's bound on a shutdown, one publish in flight and one pause between requests at
  most, as a property of a run: whatever the bot begins while the flag is down belongs to
  the posting of one deal (rendering, sending, upsert, the pause after it) or is a log
  line or a read of the flag.
\<close>

definition part_of_a_post :: "event \<Rightarrow> bool" where
  "part_of_a_post e =
     (case e of
        Poll b \<Rightarrow> True
      | Log_info m \<Rightarrow> True
      | Log_error m \<Rightarrow> True
      | Get_deal_stats a \<Rightarrow> True
      | Datetime_now \<Rightarrow> True
      | Send_message c m b \<Rightarrow> True
      | Update_deal d \<Rightarrow> True
      | Sleep site r \<Rightarrow> site = Throttle
      | _ \<Rightarrow> False)"

definition is_send :: "event \<Rightarrow> bool" where
  "is_send e = (case e of Send_message c m b \<Rightarrow> True | _ \<Rightarrow> False)"

definition is_sleep :: "event \<Rightarrow> bool" where
  "is_sleep e = (case e of Sleep site r \<Rightarrow> True | _ \<Rightarrow> False)"

definition prompt_shutdown :: "'w env \<Rightarrow> 'w trace \<Rightarrow> bool" where
  "prompt_shutdown E t = list_all (\<lambda>we. running E (fst we) \<or> part_of_a_post (snd we)) t"

section \<open>Numbers as text\<close>














section \<open>Outcomes and sequencing\<close>

lemma after_pair [simp]: "after t (x, w, t') = (x, w, t @ t')"
  by (simp add: after_def)

lemma after_nil [simp]: "after [] r = r"
  by (cases r) simp

lemma after_after [simp]: "after t (after t' r) = after (t @ t') r"
  by (cases r) simp

lemma result_of_pair [simp]: "result_of (x, w, t) = x"
  by (simp add: result_of_def)

lemma world_of_pair [simp]: "world_of (x, w, t) = w"
  by (simp add: world_of_def)

lemma trace_of_pair [simp]: "trace_of (x, w, t) = t"
  by (simp add: trace_of_def)

lemma events_of_pair [simp]: "events_of (x, w, t) = map snd t"
  by (simp add: events_of_def)

lemma result_of_after [simp]: "result_of (after t r) = result_of r"
  by (cases r) simp

lemma world_of_after [simp]: "world_of (after t r) = world_of r"
  by (cases r) simp

lemma trace_of_after [simp]: "trace_of (after t r) = t @ trace_of r"
  by (cases r) simp

lemma events_of_after [simp]: "events_of (after t r) = map snd t @ events_of r"
  by (cases r) simp

lemma outcome_parts: "r = (result_of r, world_of r, trace_of r)"
  by (cases r) simp


lemma act_bind_Inl: "m w = (Inl e, w1, t1) \<Longrightarrow> act_bind m f w = (Inl e, w1, t1)"
  by (simp add: act_bind_def)

lemma act_bind_Inr: "m w = (Inr a, w1, t1) \<Longrightarrow> act_bind m f w = after t1 (f a w1)"
  by (simp add: act_bind_def)

lemma act_bind_return [simp]: "act_bind (act_return a) f w = f a w"
  by (simp add: act_bind_def act_return_def)

lemma act_bind_lift_Inr [simp]: "act_bind (act_lift (Inr a)) f w = f a w"
  by (simp add: act_bind_def act_lift_def)

lemma act_bind_lift_Inl [simp]: "act_bind (act_lift (Inl e)) f w = (Inl e, w, [])"
  by (simp add: act_bind_def act_lift_def)

lemma act_bind_emit [simp]: "act_bind (emit e) f w = after [(w, e)] (f () w)"
  by (simp add: act_bind_def emit_def)

lemma act_bind_poll [simp]:
  "act_bind (poll_running E) f w = after [(w, Poll (running E w))] (f (running E w) w)"
  by (simp add: act_bind_def poll_running_def)

lemma act_bind_clock [simp]:
  "act_bind (read_clock E) f w = after [(w, Datetime_now)] (f (now E w) w)"
  by (simp add: act_bind_def read_clock_def)

lemma call_Inr: "f w = (Inr a, w1) \<Longrightarrow> call e f w = (Inr a, w1, [(w, e)])"
  by (simp add: call_def)

lemma call_Inl: "f w = (Inl x, w1) \<Longrightarrow> call e f w = (Inl x, w1, [(w, e)])"
  by (simp add: call_def)

lemma act_bind_call_Inr:
  "f w = (Inr a, w1) \<Longrightarrow> act_bind (call e f) g w = after [(w, e)] (g a w1)"
  by (simp add: act_bind_def call_def)

lemma act_bind_call_Inl:
  "f w = (Inl x, w1) \<Longrightarrow> act_bind (call e f) g w = (Inl x, w1, [(w, e)])"
  by (simp add: act_bind_def call_def)

lemma py_sleep_num: "py_sleep E site (YNum r) = call (Sleep site r) (\<lambda>w. sleep E w r)"
  by (simp add: py_sleep_def)

lemma unicode_capitalize_demo_env [simp]:
  "unicode_capitalize (demo_env stop faults batch) = latin1_capitalize"
  by (simp add: demo_env_def)

section \<open>The affiliate link\<close>

text \<open>
  Claim C6. When the configuration holds an affiliate id that is text, the link is the
  source URL, unchanged, followed by \<open>&\<close> if the URL holds a question mark and by \<open>?\<close> if
  it holds none, and by \<open>tag=\<close> and the affiliate id. Nothing of the URL is checked or
  rewritten.
\<close>

theorem affiliate_link_join_rule:
  assumes "subscript2 (config self) ''amazon'' ''affiliate_id'' = Inr (YStr tag)"
  shows "generate_affiliate_link self E u
           = Inr (u @ (if CHR ''?'' \<in> set u then ''&'' else ''?'') @ ''tag='' @ tag)"
  using assms by (simp add: generate_affiliate_link_def bind_exn_def py_str_def)

theorem affiliate_link_join_rule_witness:
  "subscript2 (config demo_bot) ''amazon'' ''affiliate_id'' = Inr (YStr ''abc'')
   \<and> generate_affiliate_link demo_bot (demo_env 0 no_faults []) ''https://x/y''
       = Inr ''https://x/y?tag=abc''
   \<and> generate_affiliate_link demo_bot (demo_env 0 no_faults []) ''https://x/y?z=1''
       = Inr ''https://x/y?z=1&tag=abc''"
proof -
  have h: "subscript2 (config demo_bot) ''amazon'' ''affiliate_id'' = Inr (YStr ''abc'')"
    by (simp add: demo_bot_def demo_config_def config_with_def subscript2_def)
  show ?thesis
    using h affiliate_link_join_rule [OF h, of "demo_env 0 no_faults []" "''https://x/y''"]
      affiliate_link_join_rule [OF h, of "demo_env 0 no_faults []" "''https://x/y?z=1''"]
    by simp
qed

section \<open>The message\<close>

lemma format_deal_message_returns:
  assumes "get_deal_stats E w (asin d) = (Inr stats, w1)"
    and "generate_affiliate_link self E (url d) = Inr link"
  shows "format_deal_message self E d w
           = (Inr (message_text (unicode_capitalize E) d (price_history stats) link (strftime (now E w1))), w1,
              [(w, Get_deal_stats (asin d)), (w1, Datetime_now)])"
  using assms
  by (simp add: format_deal_message_def act_bind_call_Inr act_return_def)

lemma format_deal_message_stats_raise:
  assumes "get_deal_stats E w (asin d) = (Inl e, w1)"
  shows "format_deal_message self E d w = (Inl e, w1, [(w, Get_deal_stats (asin d))])"
  using assms by (simp add: format_deal_message_def act_bind_call_Inl)

lemma format_deal_message_link_raise:
  assumes "get_deal_stats E w (asin d) = (Inr stats, w1)"
    and "generate_affiliate_link self E (url d) = Inl e"
  shows "format_deal_message self E d w = (Inl e, w1, [(w, Get_deal_stats (asin d))])"
  using assms by (simp add: format_deal_message_def act_bind_call_Inr)

lemma format_deal_message_cases:
  obtains (returns) stats w1 link where
      "get_deal_stats E w (asin d) = (Inr stats, w1)"
      "generate_affiliate_link self E (url d) = Inr link"
      "format_deal_message self E d w
         = (Inr (message_text (unicode_capitalize E) d (price_history stats) link (strftime (now E w1))), w1,
            [(w, Get_deal_stats (asin d)), (w1, Datetime_now)])"
  | (raises) e w1 where
      "format_deal_message self E d w = (Inl e, w1, [(w, Get_deal_stats (asin d))])"
proof (cases "get_deal_stats E w (asin d)")
  case (Pair r w1)
  show ?thesis
  proof (cases r)
    case (Inl e)
    with Pair have "get_deal_stats E w (asin d) = (Inl e, w1)" by simp
    from raises [OF format_deal_message_stats_raise [OF this]] show ?thesis .
  next
    case (Inr stats)
    with Pair have s: "get_deal_stats E w (asin d) = (Inr stats, w1)" by simp
    show ?thesis
    proof (cases "generate_affiliate_link self E (url d)")
      case (Inl e)
      from raises [OF format_deal_message_link_raise [OF s Inl]] show ?thesis .
    next
      case link: (Inr link)
      from returns [OF s link format_deal_message_returns [OF s link]] show ?thesis .
    qed
  qed
qed

lemma history_block_not_empty: "history_block st \<noteq> []"
  by (simp add: history_block_def nl_def)

text \<open>
  Claim C5. Let the lookup of the statistics return and the affiliate id be configured.
  Then the message is rendered, and it holds the block on the price history, between the
  line on the savings and the line of the link, iff the statistics are present and their
  \<open>times_posted\<close> is greater than 1; the block shows the lowest price and the times posted.
  Otherwise the message is the head followed at once by the tail.
\<close>

theorem history_block_gating:
  assumes "get_deal_stats E w (asin d) = (Inr stats, w1)"
    and "generate_affiliate_link self E (url d) = Inr link"
  shows "(\<forall>st. stats = Some st \<and> 1 < times_posted st \<longrightarrow>
            result_of (format_deal_message self E d w)
              = Inr (message_head d
                     @ (nl @ emoji_chart @ '' Lowest Price: $'' @ fmt2 (lowest_price st) @ nl
                        @ emoji_bars @ '' Times Listed: '' @ show_int (times_posted st))
                     @ message_tail (unicode_capitalize E) d link (strftime (now E w1))))
       \<and> (\<not> (\<exists>st. stats = Some st \<and> 1 < times_posted st) \<longrightarrow>
            result_of (format_deal_message self E d w)
              = Inr (message_head d @ message_tail (unicode_capitalize E) d link (strftime (now E w1))))
       \<and> ((result_of (format_deal_message self E d w)
              \<noteq> Inr (message_head d @ message_tail (unicode_capitalize E) d link (strftime (now E w1))))
            \<longleftrightarrow> (\<exists>st. stats = Some st \<and> 1 < times_posted st))"
proof -
  have r: "result_of (format_deal_message self E d w)
      = Inr (message_head d @ price_history stats @ message_tail (unicode_capitalize E) d link (strftime (now E w1)))"
    using format_deal_message_returns [OF assms] by (simp add: message_text_def)
  have present: "price_history stats = history_block st"
    if "stats = Some st" "1 < times_posted st" for st
    using that by (simp add: price_history_def)
  have absent: "price_history stats = []" if "\<not> (\<exists>st. stats = Some st \<and> 1 < times_posted st)"
    using that by (cases stats) (auto simp: price_history_def)
  have differs: "price_history stats \<noteq> []" if "stats = Some st" "1 < times_posted st" for st
    using that present history_block_not_empty by simp
  show ?thesis
  proof (intro conjI allI impI)
    fix st assume "stats = Some st \<and> 1 < times_posted st"
    then show "result_of (format_deal_message self E d w)
              = Inr (message_head d
                     @ (nl @ emoji_chart @ '' Lowest Price: $'' @ fmt2 (lowest_price st) @ nl
                        @ emoji_bars @ '' Times Listed: '' @ show_int (times_posted st))
                     @ message_tail (unicode_capitalize E) d link (strftime (now E w1)))"
      using r present [of st] by (simp add: history_block_def)
  next
    assume "\<not> (\<exists>st. stats = Some st \<and> 1 < times_posted st)"
    then show "result_of (format_deal_message self E d w)
              = Inr (message_head d @ message_tail (unicode_capitalize E) d link (strftime (now E w1)))"
      using r absent by simp
  next
    show "(result_of (format_deal_message self E d w)
              \<noteq> Inr (message_head d @ message_tail (unicode_capitalize E) d link (strftime (now E w1))))
            \<longleftrightarrow> (\<exists>st. stats = Some st \<and> 1 < times_posted st)"
      using r absent differs by auto
  qed
qed

theorem history_block_gating_witness:
  "get_deal_stats (demo_env 9 no_faults []) seen_thrice (asin kettle)
     = (Inr (Some \<lparr>lowest_price = 1999 / 100, times_posted = 3\<rparr>), tick seen_thrice)
   \<and> result_of (format_deal_message demo_bot (demo_env 9 no_faults []) kettle seen_thrice)
     = Inr (message_head kettle
            @ (nl @ emoji_chart @ '' Lowest Price: $19.99'' @ nl @ emoji_bars @ '' Times Listed: 3'')
            @ message_tail latin1_capitalize kettle ''https://x/y?tag=abc'' ''2024-05-17 09:30:01'')
   \<and> get_deal_stats (demo_env 9 no_faults []) seen_once (asin kettle)
     = (Inr (Some \<lparr>lowest_price = 2499 / 100, times_posted = 1\<rparr>), tick seen_once)
   \<and> result_of (format_deal_message demo_bot (demo_env 9 no_faults []) kettle seen_once)
     = Inr (message_head kettle @ message_tail latin1_capitalize kettle ''https://x/y?tag=abc'' ''2024-05-17 09:30:01'')"
proof -
  let ?E = "demo_env 9 no_faults []"
  have s3: "get_deal_stats ?E seen_thrice (asin kettle)
     = (Inr (Some \<lparr>lowest_price = 1999 / 100, times_posted = 3\<rparr>), tick seen_thrice)"
    by code_simp
  have s1: "get_deal_stats ?E seen_once (asin kettle)
     = (Inr (Some \<lparr>lowest_price = 2499 / 100, times_posted = 1\<rparr>), tick seen_once)"
    by code_simp
  have l: "generate_affiliate_link demo_bot ?E (url kettle) = Inr ''https://x/y?tag=abc''"
    by code_simp
  have f: "fmt2 (1999 / 100) = ''19.99''" "show_int 3 = ''3''"
    by code_simp+
  have t: "strftime (now ?E (tick seen_thrice)) = ''2024-05-17 09:30:01''"
    "strftime (now ?E (tick seen_once)) = ''2024-05-17 09:30:01''"
    by code_simp+
  show ?thesis
    using s3 s1 history_block_gating [OF s3 l] history_block_gating [OF s1 l]
    by (simp add: f t)
qed









section \<open>What a rendering depends on\<close>

text \<open>
  Claim C8, as the spec states it, makes the text a function of the deal and its
  statistics alone. The message ends with the time of the clock at the rendering: the
  same deal with the same statistics, rendered at two times, gives two texts. And the
  rendering reads the store and the clock.
\<close>

theorem rendering_pure_counterexample:
  "fst (get_deal_stats (demo_env 99 no_faults []) start (asin kettle))
     = fst (get_deal_stats (demo_env 99 no_faults []) later (asin kettle))
   \<and> \<not> isl (result_of (format_deal_message demo_bot (demo_env 99 no_faults []) kettle start))
   \<and> \<not> isl (result_of (format_deal_message demo_bot (demo_env 99 no_faults []) kettle later))
   \<and> result_of (format_deal_message demo_bot (demo_env 99 no_faults []) kettle start)
       \<noteq> result_of (format_deal_message demo_bot (demo_env 99 no_faults []) kettle later)
   \<and> events_of (format_deal_message demo_bot (demo_env 99 no_faults []) kettle start)
       = [Get_deal_stats (asin kettle), Datetime_now]"
  by code_simp

text \<open>
  Claim C8, amended. The text is a function of the deal, of the statistics the store
  returns for its identifier, of the configuration and of the time the clock shows at the
  rendering: two renderings that agree on these give the same result. A rendering makes
  two calls, the lookup of the statistics and the reading of the clock, and writes
  nothing: it leaves the world as the lookup left it.
\<close>

theorem rendering_determined:
  assumes "get_deal_stats E w (asin d) = (Inr stats, w1)"
    and "get_deal_stats E v (asin d) = (Inr stats, v1)"
    and "now E w1 = now E v1"
  shows "result_of (format_deal_message self E d w) = result_of (format_deal_message self E d v)
       \<and> world_of (format_deal_message self E d w) = w1
       \<and> list_all (\<lambda>e. e = Get_deal_stats (asin d) \<or> e = Datetime_now)
            (events_of (format_deal_message self E d w))"
proof (cases "generate_affiliate_link self E (url d)")
  case (Inl e)
  show ?thesis
    using format_deal_message_link_raise [OF assms(1) Inl]
      format_deal_message_link_raise [OF assms(2) Inl]
    by simp
next
  case (Inr link)
  show ?thesis
    using format_deal_message_returns [OF assms(1) Inr]
      format_deal_message_returns [OF assms(2) Inr] assms(3)
    by simp
qed

theorem rendering_determined_witness:
  "get_deal_stats (demo_env 99 no_faults []) seen_once (asin lamp) = (Inr None, tick seen_once)
   \<and> get_deal_stats (demo_env 99 no_faults []) start (asin lamp) = (Inr None, tick start)
   \<and> now (demo_env 99 no_faults []) (tick seen_once) = now (demo_env 99 no_faults []) (tick start)
   \<and> result_of (format_deal_message demo_bot (demo_env 99 no_faults []) lamp seen_once)
       = result_of (format_deal_message demo_bot (demo_env 99 no_faults []) lamp start)
   \<and> world_of (format_deal_message demo_bot (demo_env 99 no_faults []) lamp seen_once)
       = tick seen_once"
proof -
  have a: "get_deal_stats (demo_env 99 no_faults []) seen_once (asin lamp) = (Inr None, tick seen_once)"
    by code_simp
  have b: "get_deal_stats (demo_env 99 no_faults []) start (asin lamp) = (Inr None, tick start)"
    by code_simp
  have c: "now (demo_env 99 no_faults []) (tick seen_once) = now (demo_env 99 no_faults []) (tick start)"
    by code_simp
  show ?thesis
    using a b c rendering_determined [OF a b c, of demo_bot] by simp
qed

section \<open>Posting one deal\<close>

lemma post_deal_body_render_raise:
  assumes "format_deal_message self E d w = (Inl e, w1, t1)"
  shows "post_deal_body self E d w = (Inl e, w1, t1)"
  using assms by (simp add: post_deal_body_def act_bind_Inl)

lemma post_deal_body_send_raise:
  assumes "format_deal_message self E d w = (Inr msg, w1, t1)"
    and "send_message E w1 (channel_id self) msg False = (Inl e, w2)"
  shows "post_deal_body self E d w
           = (Inl e, w2, t1 @ [(w1, Send_message (channel_id self) msg False)])"
  using assms by (simp add: post_deal_body_def act_bind_Inr act_bind_call_Inl)

lemma post_deal_body_update_raise:
  assumes "format_deal_message self E d w = (Inr msg, w1, t1)"
    and "send_message E w1 (channel_id self) msg False = (Inr u, w2)"
    and "update_deal E w2 d = (Inl e, w3)"
  shows "post_deal_body self E d w
           = (Inl e, w3, t1 @ [(w1, Send_message (channel_id self) msg False), (w2, Update_deal d)])"
  using assms by (simp add: post_deal_body_def act_bind_Inr act_bind_call_Inr act_bind_call_Inl)

lemma post_deal_body_returns:
  assumes "format_deal_message self E d w = (Inr msg, w1, t1)"
    and "send_message E w1 (channel_id self) msg False = (Inr u, w2)"
    and "update_deal E w2 d = (Inr u', w3)"
  shows "post_deal_body self E d w
           = (Inr True, w3, t1 @ [(w1, Send_message (channel_id self) msg False), (w2, Update_deal d)])"
  using assms
  by (simp add: post_deal_body_def act_bind_Inr act_bind_call_Inr act_return_def)

text \<open>
  The four ways through the body of \<^verbatim>\<open>post_deal\<close>: the rendering raises, the sending
  raises, the upsert raises, or all three return.
\<close>

lemma post_deal_body_cases:
  obtains (render_raises) e w1 where
      "format_deal_message self E d w = (Inl e, w1, [(w, Get_deal_stats (asin d))])"
      "post_deal_body self E d w = (Inl e, w1, [(w, Get_deal_stats (asin d))])"
  | (send_raises) msg w1 e w2 where
      "format_deal_message self E d w
         = (Inr msg, w1, [(w, Get_deal_stats (asin d)), (w1, Datetime_now)])"
      "send_message E w1 (channel_id self) msg False = (Inl e, w2)"
      "post_deal_body self E d w
         = (Inl e, w2, [(w, Get_deal_stats (asin d)), (w1, Datetime_now),
                        (w1, Send_message (channel_id self) msg False)])"
  | (update_raises) msg w1 w2 e w3 where
      "format_deal_message self E d w
         = (Inr msg, w1, [(w, Get_deal_stats (asin d)), (w1, Datetime_now)])"
      "send_message E w1 (channel_id self) msg False = (Inr (), w2)"
      "update_deal E w2 d = (Inl e, w3)"
      "post_deal_body self E d w
         = (Inl e, w3, [(w, Get_deal_stats (asin d)), (w1, Datetime_now),
                        (w1, Send_message (channel_id self) msg False), (w2, Update_deal d)])"
  | (all_return) msg w1 w2 w3 where
      "format_deal_message self E d w
         = (Inr msg, w1, [(w, Get_deal_stats (asin d)), (w1, Datetime_now)])"
      "send_message E w1 (channel_id self) msg False = (Inr (), w2)"
      "update_deal E w2 d = (Inr (), w3)"
      "post_deal_body self E d w
         = (Inr True, w3, [(w, Get_deal_stats (asin d)), (w1, Datetime_now),
                           (w1, Send_message (channel_id self) msg False), (w2, Update_deal d)])"
proof (cases rule: format_deal_message_cases [of E w d self])
  case (raises e w1)
  from render_raises [OF raises post_deal_body_render_raise [OF raises]] show ?thesis .
next
  case (returns stats w1 link)
  let ?msg = "message_text (unicode_capitalize E) d (price_history stats) link (strftime (now E w1))"
  note f = returns(3)
  show ?thesis
  proof (cases "send_message E w1 (channel_id self) ?msg False")
    case (Pair r w2)
    show ?thesis
    proof (cases r)
      case (Inl e)
      with Pair have s: "send_message E w1 (channel_id self) ?msg False = (Inl e, w2)" by simp
      from send_raises [OF f s] post_deal_body_send_raise [OF f s] show ?thesis by simp
    next
      case (Inr u)
      with Pair have s: "send_message E w1 (channel_id self) ?msg False = (Inr (), w2)" by simp
      show ?thesis
      proof (cases "update_deal E w2 d")
        case upd: (Pair r' w3)
        show ?thesis
        proof (cases r')
          case (Inl e)
          with upd have u: "update_deal E w2 d = (Inl e, w3)" by simp
          from update_raises [OF f s u] post_deal_body_update_raise [OF f s u]
          show ?thesis by simp
        next
          case inr: (Inr u')
          with upd have u: "update_deal E w2 d = (Inr (), w3)" by simp
          from all_return [OF f s u] post_deal_body_returns [OF f s u]
          show ?thesis by simp
        qed
      qed
    qed
  qed
qed

lemma post_deal_caught:
  assumes "post_deal_body self E d w = (Inl e, w1, t1)" and "is_Exception e"
  shows "post_deal self E d w
           = (Inr False, w1,
              t1 @ [(w1, Log_error ((if is_TelegramError e then ''Telegram error: ''
                                     else ''Error posting deal: '') @ str_exn e))])"
  using assms by (simp add: post_deal_def)

lemma post_deal_escapes:
  assumes "post_deal_body self E d w = (Inl e, w1, t1)" and "\<not> is_Exception e"
  shows "post_deal self E d w = (Inl e, w1, t1)"
proof -
  have "\<not> is_TelegramError e"
    using assms(2) by (auto simp: is_Exception_def is_TelegramError_def)
  with assms show ?thesis by (simp add: post_deal_def)
qed

lemma post_deal_posted:
  assumes "post_deal_body self E d w = (Inr b, w1, t1)"
  shows "post_deal self E d w = (Inr b, w1, t1)"
  using assms by (simp add: post_deal_def)

lemma post_deal_raised:
  assumes "post_deal_body self E d w = (Inl e, w1, t1)"
  shows "post_deal self E d w
           = (if is_Exception e
              then (Inr False, w1,
                    t1 @ [(w1, Log_error ((if is_TelegramError e then ''Telegram error: ''
                                           else ''Error posting deal: '') @ str_exn e))])
              else (Inl e, w1, t1))"
  using post_deal_caught [OF assms] post_deal_escapes [OF assms] by simp

text \<open>
  What every posting has in common: it begins with the lookup of the statistics, it never
  sleeps, and it records the deal, once, iff it returns \<^verbatim>\<open>True\<close>.
\<close>

lemma post_deal_trace_head:
  "\<exists>rest. trace_of (post_deal self E d w) = (w, Get_deal_stats (asin d)) # rest"
  by (cases rule: post_deal_body_cases [of self E d w])
    (simp_all add: post_deal_raised post_deal_posted)


lemma post_deal_persisted:
  "length (filter (persisted E) (trace_of (post_deal self E d w)))
     = (if result_of (post_deal self E d w) = Inr True then 1 else 0)"
  by (cases rule: post_deal_body_cases [of self E d w])
    (simp_all add: post_deal_raised post_deal_posted persisted_def)

lemma post_deal_update_after_send:
  assumes "(v, Update_deal d') \<in> set (trace_of (post_deal self E d w))"
  shows "\<exists>v0 msg. (v0, Send_message (channel_id self) msg False) \<in> set (trace_of (post_deal self E d w))
           \<and> send_message E v0 (channel_id self) msg False = (Inr (), v)"
  using assms
  by (cases rule: post_deal_body_cases [of self E d w])
    (auto simp add: post_deal_raised post_deal_posted split: if_splits)

section \<open>One pass of the loop over the deals\<close>

lemma post_and_throttle_raise:
  assumes "post_deal self E d w = (Inl e, w1, t1)"
  shows "post_and_throttle self E d n w = (Inl e, w1, t1)"
  using assms by (simp add: post_and_throttle_def act_bind_Inl)

lemma post_and_throttle_failed:
  assumes "post_deal self E d w = (Inr False, w1, t1)"
  shows "post_and_throttle self E d n w = (Inr n, w1, t1)"
  using assms by (simp add: post_and_throttle_def act_bind_def act_return_def)

lemma post_and_throttle_no_delay:
  assumes "post_deal self E d w = (Inr True, w1, t1)"
    and "subscript3 (config self) ''scraping'' ''request_delay'' ''min'' = Inl e"
  shows "post_and_throttle self E d n w = (Inl e, w1, t1)"
  using assms by (simp add: post_and_throttle_def act_bind_def act_lift_def)

lemma post_and_throttle_no_number:
  assumes "post_deal self E d w = (Inr True, w1, t1)"
    and "subscript3 (config self) ''scraping'' ''request_delay'' ''min'' = Inr v"
    and "\<forall>r. v \<noteq> YNum r"
  shows "\<exists>e. post_and_throttle self E d n w = (Inl e, w1, t1)"
  using assms
  by (cases v) (simp_all add: post_and_throttle_def act_bind_def act_lift_def py_sleep_def)

lemma post_and_throttle_posted:
  assumes "post_deal self E d w = (Inr True, w1, t1)"
    and "subscript3 (config self) ''scraping'' ''request_delay'' ''min'' = Inr (YNum delay)"
  shows "post_and_throttle self E d n w
           = after (t1 @ [(w1, Sleep Throttle delay)])
               (case sleep E w1 delay of
                  (Inl e, w2) \<Rightarrow> (Inl e, w2, [])
                | (Inr u, w2) \<Rightarrow> (Inr (n + 1), w2, []))"
  using assms
  by (cases "sleep E w1 delay")
    (auto simp add: post_and_throttle_def py_sleep_num act_bind_def act_lift_def call_def
      act_return_def split: sum.splits)

lemma post_and_throttle_count:
  assumes "post_and_throttle self E d n w = (Inr k, w', t)"
  shows "k = n + length (filter (persisted E) t)"
proof -
  obtain r w1 t1 where p: "post_deal self E d w = (r, w1, t1)"
    by (cases "post_deal self E d w") auto
  have c: "length (filter (persisted E) t1) = (if r = Inr True then 1 else 0)"
    using post_deal_persisted [of E self d w] p by simp
  show ?thesis
  proof (cases r)
    case (Inl e)
    with p assms post_and_throttle_raise [of self E d w e w1 t1 n] show ?thesis by simp
  next
    case (Inr b)
    show ?thesis
    proof (cases b)
      case False
      with Inr p assms c post_and_throttle_failed [of self E d w w1 t1 n] show ?thesis by simp
    next
      case True
      with Inr p have p': "post_deal self E d w = (Inr True, w1, t1)" by simp
      show ?thesis
      proof (cases "subscript3 (config self) ''scraping'' ''request_delay'' ''min''")
        case (Inl e)
        with assms post_and_throttle_no_delay [OF p' Inl, of n] show ?thesis by simp
      next
        case v: (Inr v)
        show ?thesis
        proof (cases "\<exists>delay. v = YNum delay")
          case False
          then have "\<forall>r. v \<noteq> YNum r" by simp
          from post_and_throttle_no_number [OF p' v this, of n] assms show ?thesis by auto
        next
          case True
          then obtain delay where "v = YNum delay" by blast
          with v have v': "subscript3 (config self) ''scraping'' ''request_delay'' ''min''
              = Inr (YNum delay)" by simp
          from post_and_throttle_posted [OF p' v', of n] assms c Inr \<open>b\<close>
          show ?thesis
            by (cases "sleep E w1 delay") (auto simp: persisted_def split: sum.splits)
        qed
      qed
    qed
  qed
qed

lemma deal_iteration_break:
  assumes "\<not> running E w"
  shows "deal_iteration self E d n w = (Inr (Break n), w, [(w, Poll False)])"
  using assms by (simp add: deal_iteration_def act_return_def)

lemma deal_iteration_check_raise:
  assumes "running E w" and "is_duplicate_deal E w (asin d) (sale_price d) = (Inl e, w1)"
  shows "deal_iteration self E d n w
           = (Inl e, w1, [(w, Poll True), (w, Is_duplicate_deal (asin d) (sale_price d))])"
  using assms by (simp add: deal_iteration_def act_bind_call_Inl)

lemma deal_iteration_skip:
  assumes "running E w" and "is_duplicate_deal E w (asin d) (sale_price d) = (Inr True, w1)"
  shows "deal_iteration self E d n w
           = (Inr (Continue n), w1, [(w, Poll True), (w, Is_duplicate_deal (asin d) (sale_price d))])"
  using assms by (simp add: deal_iteration_def act_bind_def poll_running_def call_def act_return_def)

lemma deal_iteration_post:
  assumes "running E w" and "is_duplicate_deal E w (asin d) (sale_price d) = (Inr False, w1)"
  shows "deal_iteration self E d n w
           = after [(w, Poll True), (w, Is_duplicate_deal (asin d) (sale_price d))]
               (case post_and_throttle self E d n w1 of
                  (Inl e, w2, t2) \<Rightarrow> (Inl e, w2, t2)
                | (Inr m, w2, t2) \<Rightarrow> (Inr (Continue m), w2, t2))"
  using assms
  by (cases "post_and_throttle self E d n w1")
    (auto simp add: deal_iteration_def act_bind_def poll_running_def call_def act_return_def
      split: sum.splits)

lemma post_and_throttle_trace_head:
  "\<exists>rest. trace_of (post_and_throttle self E d n w) = (w, Get_deal_stats (asin d)) # rest"
proof -
  obtain rest where h: "trace_of (post_deal self E d w) = (w, Get_deal_stats (asin d)) # rest"
    using post_deal_trace_head [of self E d w] by auto
  obtain r w1 t1 where p: "post_deal self E d w = (r, w1, t1)"
    by (cases "post_deal self E d w") auto
  with h have t1: "t1 = (w, Get_deal_stats (asin d)) # rest" by simp
  show ?thesis
    using p t1
    by (auto simp add: post_and_throttle_def act_bind_def act_return_def act_lift_def
        py_sleep_def call_def split: sum.splits prod.splits yaml.splits)
qed

lemma deal_iteration_count:
  assumes "deal_iteration self E d n w = (Inr s, w', t)"
  shows "(case s of Break k \<Rightarrow> k | Continue k \<Rightarrow> k) = n + length (filter (persisted E) t)"
proof (cases "running E w")
  case False
  with assms deal_iteration_break [of E w self d n] show ?thesis
    by (auto simp: persisted_def)
next
  case True
  obtain r w1 where c: "is_duplicate_deal E w (asin d) (sale_price d) = (r, w1)"
    by (cases "is_duplicate_deal E w (asin d) (sale_price d)") auto
  show ?thesis
  proof (cases r)
    case (Inl e)
    with c assms deal_iteration_check_raise [OF True, of d e w1 self n] show ?thesis by simp
  next
    case (Inr dup)
    show ?thesis
    proof (cases dup)
      case True
      with Inr c assms deal_iteration_skip [OF \<open>running E w\<close>, of d w1 self n] show ?thesis
        by (auto simp: persisted_def)
    next
      case False
      with Inr c have c': "is_duplicate_deal E w (asin d) (sale_price d) = (Inr False, w1)"
        by simp
      obtain r2 w2 t2 where p: "post_and_throttle self E d n w1 = (r2, w2, t2)"
        by (cases "post_and_throttle self E d n w1") auto
      show ?thesis
      proof (cases r2)
        case (Inl e)
        with p assms deal_iteration_post [OF \<open>running E w\<close> c', of self n] show ?thesis by simp
      next
        case m: (Inr m)
        with p have "m = n + length (filter (persisted E) t2)"
          using post_and_throttle_count [of self E d n w1 m w2 t2] by simp
        with m p assms deal_iteration_post [OF \<open>running E w\<close> c', of self n] show ?thesis
          by (auto simp: persisted_def)
      qed
    qed
  qed
qed

lemma for_deals_step:
  "for_deals self E (d # ds) n w
     = (case deal_iteration self E d n w of
          (Inl e, w1, t1) \<Rightarrow> (Inl e, w1, t1)
        | (Inr (Break k), w1, t1) \<Rightarrow> (Inr k, w1, t1)
        | (Inr (Continue k), w1, t1) \<Rightarrow> after t1 (for_deals self E ds k w1))"
  by (cases "deal_iteration self E d n w")
    (auto simp add: act_bind_def act_return_def split: sum.splits step.splits)

declare for_deals.simps(2) [simp del]

lemma for_deals_count:
  "for_deals self E ds n w = (Inr k, w', t) \<Longrightarrow> k = n + length (filter (persisted E) t)"
proof (induction ds arbitrary: n w k w' t)
  case Nil
  then show ?case by (simp add: act_return_def)
next
  case (Cons d ds)
  obtain r w1 t1 where it: "deal_iteration self E d n w = (r, w1, t1)"
    by (cases "deal_iteration self E d n w") auto
  show ?case
  proof (cases r)
    case (Inl e)
    with it Cons.prems show ?thesis by (simp add: for_deals_step)
  next
    case (Inr s)
    with it have it': "deal_iteration self E d n w = (Inr s, w1, t1)" by simp
    note c = deal_iteration_count [OF it']
    show ?thesis
    proof (cases s)
      case (Break m)
      with it' Cons.prems c show ?thesis by (simp add: for_deals_step)
    next
      case (Continue m)
      obtain r2 w2 t2 where rest: "for_deals self E ds m w1 = (r2, w2, t2)"
        by (cases "for_deals self E ds m w1") auto
      with it' Continue Cons.prems have "r2 = Inr k" "t = t1 @ t2"
        by (simp_all add: for_deals_step)
      with rest Cons.IH [of m w1 k w2 t2] c Continue show ?thesis by simp
    qed
  qed
qed

section \<open>The duplicate gate\<close>

text \<open>
  Claim C1. Let a deal of the batch reach the gate, that is, let the flag be up at its
  pass of the loop, and let the duplicate check of the store answer for the pair of its
  identifier and its sale price. If the answer is true the pass is the read of the flag
  and the check and nothing else, it keeps the count, and the loop goes on with the next
  deal. If the answer is false the pass goes on with the posting, which begins with the
  lookup of the statistics for the rendering. So the pass makes no call that renders,
  publishes or persists iff the answer is true. And for a store that answers as the spec
  defines a duplicate, a deal whose identifier has records at other prices only is no
  duplicate.
\<close>

theorem dedup_gate:
  assumes "running E w"
    and "is_duplicate_deal E w (asin d) (sale_price d) = (Inr dup, w1)"
  shows "(dup \<longrightarrow>
            deal_iteration self E d n w
              = (Inr (Continue n), w1,
                 [(w, Poll True), (w, Is_duplicate_deal (asin d) (sale_price d))])
            \<and> for_deals self E (d # ds) n w
              = after [(w, Poll True), (w, Is_duplicate_deal (asin d) (sale_price d))]
                  (for_deals self E ds n w1))
       \<and> (\<not> dup \<longrightarrow>
            (\<exists>rest. trace_of (deal_iteration self E d n w)
               = [(w, Poll True), (w, Is_duplicate_deal (asin d) (sale_price d)),
                  (w1, Get_deal_stats (asin d))] @ rest))
       \<and> ((\<forall>e \<in> set (events_of (deal_iteration self E d n w)). \<not> posting_event e) \<longleftrightarrow> dup)
       \<and> (dup = spec_is_duplicate_deal recs (asin d) (sale_price d)
            \<and> (\<forall>p. (asin d, p) \<in> set recs \<longrightarrow> p \<noteq> sale_price d) \<longrightarrow> \<not> dup)"
proof -
  have skip: "deal_iteration self E d n w
      = (Inr (Continue n), w1, [(w, Poll True), (w, Is_duplicate_deal (asin d) (sale_price d))])"
    if dup
    using that assms deal_iteration_skip [of E w d w1 self n] by simp
  have post: "\<exists>rest. trace_of (deal_iteration self E d n w)
      = [(w, Poll True), (w, Is_duplicate_deal (asin d) (sale_price d)),
         (w1, Get_deal_stats (asin d))] @ rest"
    if "\<not> dup"
  proof -
    from that assms have c: "is_duplicate_deal E w (asin d) (sale_price d) = (Inr False, w1)"
      by simp
    obtain rest where h: "trace_of (post_and_throttle self E d n w1)
        = (w1, Get_deal_stats (asin d)) # rest"
      using post_and_throttle_trace_head [of self E d n w1] by auto
    obtain r2 w2 t2 where p: "post_and_throttle self E d n w1 = (r2, w2, t2)"
      by (cases "post_and_throttle self E d n w1") auto
    with h have "t2 = (w1, Get_deal_stats (asin d)) # rest" by simp
    with p deal_iteration_post [OF assms(1) c, of self n] show ?thesis
      by (cases r2) simp_all
  qed
  have next_deal: "for_deals self E (d # ds) n w
      = after [(w, Poll True), (w, Is_duplicate_deal (asin d) (sale_price d))]
          (for_deals self E ds n w1)"
    if dup
    using skip [OF that] by (simp add: for_deals_step)
  have gate: "(\<forall>e \<in> set (events_of (deal_iteration self E d n w)). \<not> posting_event e) \<longleftrightarrow> dup"
  proof (cases dup)
    case True
    with skip show ?thesis by (simp add: posting_event_def)
  next
    case False
    with post obtain rest where "trace_of (deal_iteration self E d n w)
        = [(w, Poll True), (w, Is_duplicate_deal (asin d) (sale_price d)),
           (w1, Get_deal_stats (asin d))] @ rest"
      by blast
    then have "Get_deal_stats (asin d) \<in> set (events_of (deal_iteration self E d n w))"
      by (simp add: events_of_def)
    moreover have "posting_event (Get_deal_stats (asin d))"
      by (simp add: posting_event_def)
    ultimately show ?thesis using False by blast
  qed
  have store: "\<not> dup"
    if "dup = spec_is_duplicate_deal recs (asin d) (sale_price d)"
      "\<forall>p. (asin d, p) \<in> set recs \<longrightarrow> p \<noteq> sale_price d"
    using that by (auto simp: spec_is_duplicate_deal_def)
  from skip post next_deal gate store show ?thesis by blast
qed

section \<open>The pause after a posted deal\<close>


section \<open>An upsert that fails after the delivery\<close>

text \<open>
  Claim C10. Let the message of a deal be rendered and delivered, and let the upsert then
  raise an exception (an instance of \<^verbatim>\<open>Exception\<close>). Then \<^verbatim>\<open>post_deal\<close> logs the error
  and returns \<^verbatim>\<open>False\<close>; the count is kept, no pause is made, and the loop goes on with
  the next deal. The count a batch ends with is the count it began with plus the number
  of upserts that returned, and every upsert is made in the world a returned send left:
  the count counts the deals that were published and persisted. (The second witness
  shows a deal announced and not recorded.)
\<close>

theorem upsert_failure_is_a_failed_post:
  assumes "format_deal_message self E d w = (Inr msg, w1, t1)"
    and "send_message E w1 (channel_id self) msg False = (Inr (), w2)"
    and "update_deal E w2 d = (Inl e, w3)"
    and "is_Exception e"
  shows "post_deal self E d w
           = (Inr False, w3,
              t1 @ [(w1, Send_message (channel_id self) msg False), (w2, Update_deal d),
                    (w3, Log_error ((if is_TelegramError e then ''Telegram error: ''
                                     else ''Error posting deal: '') @ str_exn e))])
       \<and> post_and_throttle self E d n w
           = (Inr n, w3,
              t1 @ [(w1, Send_message (channel_id self) msg False), (w2, Update_deal d),
                    (w3, Log_error ((if is_TelegramError e then ''Telegram error: ''
                                     else ''Error posting deal: '') @ str_exn e))])
       \<and> (\<forall>w0. running E w0
               \<and> is_duplicate_deal E w0 (asin d) (sale_price d) = (Inr False, w) \<longrightarrow>
             for_deals self E (d # ds) n w0
               = after ([(w0, Poll True), (w0, Is_duplicate_deal (asin d) (sale_price d))] @ t1
                        @ [(w1, Send_message (channel_id self) msg False), (w2, Update_deal d),
                           (w3, Log_error ((if is_TelegramError e then ''Telegram error: ''
                                            else ''Error posting deal: '') @ str_exn e))])
                   (for_deals self E ds n w3))
       \<and> (\<forall>batch m k wa wb t. for_deals self E batch m wa = (Inr k, wb, t) \<longrightarrow>
             k = m + length (filter (persisted E) t))
       \<and> (\<forall>dx wx v dy. (v, Update_deal dy) \<in> set (trace_of (post_deal self E dx wx)) \<longrightarrow>
             (\<exists>v0 m. (v0, Send_message (channel_id self) m False)
                        \<in> set (trace_of (post_deal self E dx wx))
                \<and> send_message E v0 (channel_id self) m False = (Inr (), v)))"
proof -
  let ?t = "t1 @ [(w1, Send_message (channel_id self) msg False), (w2, Update_deal d),
                  (w3, Log_error ((if is_TelegramError e then ''Telegram error: ''
                                   else ''Error posting deal: '') @ str_exn e))]"
  have p: "post_deal self E d w = (Inr False, w3, ?t)"
    using post_deal_caught [OF post_deal_body_update_raise [OF assms(1,2,3)] assms(4)] by simp
  have pt: "post_and_throttle self E d n w = (Inr n, w3, ?t)"
    using post_and_throttle_failed [OF p] .
  have on: "for_deals self E (d # ds) n w0
      = after ([(w0, Poll True), (w0, Is_duplicate_deal (asin d) (sale_price d))] @ ?t)
          (for_deals self E ds n w3)"
    if "running E w0" "is_duplicate_deal E w0 (asin d) (sale_price d) = (Inr False, w)" for w0
    using deal_iteration_post [OF that, of self n] pt by (simp add: for_deals_step)
  have count: "k = m + length (filter (persisted E) t)"
    if "for_deals self E batch m wa = (Inr k, wb, t)" for batch m k wa wb t
    using for_deals_count [OF that] .
  have order: "\<exists>v0 m. (v0, Send_message (channel_id self) m False)
        \<in> set (trace_of (post_deal self E dx wx))
      \<and> send_message E v0 (channel_id self) m False = (Inr (), v)"
    if "(v, Update_deal dy) \<in> set (trace_of (post_deal self E dx wx))" for dx wx v dy
    using post_deal_update_after_send [OF that] .
  from p pt on count order show ?thesis by blast
qed

section \<open>Runs of the three properties of a pass\<close>

theorem dedup_gate_witness:
  "running (demo_env 99 no_faults []) seen_once
   \<and> is_duplicate_deal (demo_env 99 no_faults []) seen_once (asin kettle) (sale_price kettle)
       = (Inr (spec_is_duplicate_deal (records seen_once) (asin kettle) (sale_price kettle)),
          tick seen_once)
   \<and> (asin kettle, 2499 / 100) \<in> set (records seen_once)
   \<and> take 3 (trace_of (deal_iteration demo_bot (demo_env 99 no_faults []) kettle 0 seen_once))
       = [(seen_once, Poll True),
          (seen_once, Is_duplicate_deal (asin kettle) (sale_price kettle)),
          (tick seen_once, Get_deal_stats (asin kettle))]
   \<and> is_duplicate_deal (demo_env 99 no_faults []) seen_same (asin kettle) (sale_price kettle)
       = (Inr True, tick seen_same)
   \<and> deal_iteration demo_bot (demo_env 99 no_faults []) kettle 0 seen_same
       = (Inr (Continue 0), tick seen_same,
          [(seen_same, Poll True),
           (seen_same, Is_duplicate_deal (asin kettle) (sale_price kettle))])"
proof -
  let ?E = "demo_env 99 no_faults []"
  have r1: "running ?E seen_once" and r2: "running ?E seen_same"
    by code_simp+
  have s: "spec_is_duplicate_deal (records seen_once) (asin kettle) (sale_price kettle) = False"
    by code_simp
  have c1: "is_duplicate_deal ?E seen_once (asin kettle) (sale_price kettle)
      = (Inr False, tick seen_once)"
    by code_simp
  have c2: "is_duplicate_deal ?E seen_same (asin kettle) (sale_price kettle)
      = (Inr True, tick seen_same)"
    by code_simp
  have m: "(asin kettle, 2499 / 100) \<in> set (records seen_once)"
    by code_simp
  from dedup_gate [OF r1 c1, of demo_bot 0 "[]" "records seen_once"]
  obtain rest where "trace_of (deal_iteration demo_bot ?E kettle 0 seen_once)
      = [(seen_once, Poll True), (seen_once, Is_duplicate_deal (asin kettle) (sale_price kettle)),
         (tick seen_once, Get_deal_stats (asin kettle))] @ rest"
    by auto
  then have t: "take 3 (trace_of (deal_iteration demo_bot ?E kettle 0 seen_once))
      = [(seen_once, Poll True), (seen_once, Is_duplicate_deal (asin kettle) (sale_price kettle)),
         (tick seen_once, Get_deal_stats (asin kettle))]"
    by simp
  from dedup_gate [OF r2 c2, of demo_bot 0 "[]" "[]"]
  have k: "deal_iteration demo_bot ?E kettle 0 seen_same
      = (Inr (Continue 0), tick seen_same,
         [(seen_same, Poll True), (seen_same, Is_duplicate_deal (asin kettle) (sale_price kettle))])"
    by simp
  from r1 c1 s m t c2 k show ?thesis by simp
qed


theorem upsert_failure_is_a_failed_post_witness:
  "send_message (demo_env 99 (fault_at 2 (Exn OtherException ''database is locked'')) [])
       (tick start) (channel_id demo_bot)
       (message_text latin1_capitalize kettle [] ''https://x/y?tag=abc'' ''2024-05-17 09:30:01'') False
     = (Inr (), tick (tick start))
   \<and> update_deal (demo_env 99 (fault_at 2 (Exn OtherException ''database is locked'')) [])
       (tick (tick start)) kettle
     = (Inl (Exn OtherException ''database is locked''), tick (tick (tick start)))
   \<and> is_Exception (Exn OtherException ''database is locked'')
   \<and> post_deal demo_bot (demo_env 99 (fault_at 2 (Exn OtherException ''database is locked'')) [])
       kettle start
     = (Inr False, tick (tick (tick start)),
        [(start, Get_deal_stats ''B000KETTLE''), (tick start, Datetime_now),
         (tick start, Send_message (YStr ''@deals'')
            (message_text latin1_capitalize kettle [] ''https://x/y?tag=abc'' ''2024-05-17 09:30:01'') False),
         (tick (tick start), Update_deal kettle),
         (tick (tick (tick start)), Log_error ''Error posting deal: database is locked'')])
   \<and> result_of (post_and_throttle demo_bot
         (demo_env 99 (fault_at 2 (Exn OtherException ''database is locked'')) []) kettle 7 start)
     = Inr 7
   \<and> records (tick (tick (tick start))) = []"
proof -
  let ?G = "demo_env 99 (fault_at 2 (Exn OtherException ''database is locked'')) []"
  let ?m = "message_text latin1_capitalize kettle [] ''https://x/y?tag=abc'' ''2024-05-17 09:30:01''"
  have h1: "format_deal_message demo_bot ?G kettle start
      = (Inr ?m, tick start, [(start, Get_deal_stats ''B000KETTLE''), (tick start, Datetime_now)])"
    by code_simp
  have c: "channel_id demo_bot = YStr ''@deals''"
    by code_simp
  have h2: "send_message ?G (tick start) (channel_id demo_bot) ?m False = (Inr (), tick (tick start))"
    by code_simp
  have h3: "update_deal ?G (tick (tick start)) kettle
      = (Inl (Exn OtherException ''database is locked''), tick (tick (tick start)))"
    by code_simp
  have h4: "is_Exception (Exn OtherException ''database is locked'')"
    by code_simp
  have h5: "is_TelegramError (Exn OtherException ''database is locked'') = False"
    by code_simp
  have h6: "records (tick (tick (tick start))) = []"
    by code_simp
  from upsert_failure_is_a_failed_post [OF h1 h2 h3 h4, of 7 "[]"] h2 h3 h4 h6
  show ?thesis by (simp add: c h5)
qed

section \<open>A cycle and the loop\<close>

lemma finish_cycle_stopped:
  assumes "\<not> running E w"
  shows "finish_cycle self E n w
           = (Inr (), w, [(w, Log_info (''Posted '' @ show_nat n @ '' new deals'')), (w, Poll False)])"
  using assms by (simp add: finish_cycle_def act_return_def)

lemma finish_cycle_running:
  assumes "running E w"
  shows "finish_cycle self E n w
           = after [(w, Log_info (''Posted '' @ show_nat n @ '' new deals'')), (w, Poll True)]
               (case bind_exn (subscript2 (config self) ''scraping'' ''update_interval_minutes'')
                       py_times_60 of
                  Inl e \<Rightarrow> (Inl e, w, [])
                | Inr seconds \<Rightarrow> py_sleep E Interval seconds w)"
  using assms
  by (auto simp add: finish_cycle_def bind_exn_def split: sum.splits)

lemma cycle_proxy_raise:
  assumes "get_working_proxy E w = (Inl e, w1)"
  shows "cycle self E w = (Inl e, w1, [(w, Get_working_proxy)])"
  using assms by (simp add: cycle_def act_bind_call_Inl)

lemma cycle_discovery_raise:
  assumes "get_working_proxy E w = (Inr u, w1)" and "get_deals E w1 = (Inl e, w2)"
  shows "cycle self E w = (Inl e, w2, [(w, Get_working_proxy), (w1, Get_deals)])"
  using assms by (simp add: cycle_def act_bind_call_Inr act_bind_call_Inl)

lemma cycle_batch:
  assumes "get_working_proxy E w = (Inr u, w1)" and "get_deals E w1 = (Inr batch, w2)"
  shows "cycle self E w
           = after [(w, Get_working_proxy), (w1, Get_deals),
                    (w2, Log_info (''Found '' @ show_nat (length batch) @ '' potential deals''))]
               (act_bind (for_deals self E batch 0) (finish_cycle self E) w2)"
  using assms by (simp add: cycle_def act_bind_call_Inr)

lemma cycle_batch_raise:
  assumes "get_working_proxy E w = (Inr u, w1)" and "get_deals E w1 = (Inr batch, w2)"
    and "for_deals self E batch 0 w2 = (Inl e, w3, t)"
  shows "cycle self E w
           = (Inl e, w3,
              [(w, Get_working_proxy), (w1, Get_deals),
               (w2, Log_info (''Found '' @ show_nat (length batch) @ '' potential deals''))] @ t)"
  using cycle_batch [OF assms(1,2)] assms(3) by (simp add: act_bind_Inl)

lemma cycle_trace_head:
  "\<exists>rest. trace_of (cycle self E w) = (w, Get_working_proxy) # rest"
proof (cases "get_working_proxy E w")
  case (Pair r w1)
  show ?thesis
  proof (cases r)
    case (Inl e)
    with Pair cycle_proxy_raise [of E w e w1 self] show ?thesis by simp
  next
    case (Inr u)
    with Pair have p: "get_working_proxy E w = (Inr u, w1)" by simp
    show ?thesis
    proof (cases "get_deals E w1")
      case d: (Pair r' w2)
      show ?thesis
      proof (cases r')
        case (Inl e)
        with d cycle_discovery_raise [OF p, of e w2 self] show ?thesis by simp
      next
        case batch: (Inr batch)
        with d cycle_batch [OF p, of batch w2 self] show ?thesis by simp
      qed
    qed
  qed
qed

lemma loop_body_returned:
  assumes "cycle self E w = (Inr u, w1, t1)"
  shows "loop_body self E w = (Inr u, w1, t1)"
  using assms by (simp add: loop_body_def)

lemma loop_body_caught:
  assumes "cycle self E w = (Inl e, w1, t1)" and "is_Exception e"
  shows "loop_body self E w
           = after (t1 @ [(w1, Log_error (''Error in main loop: '' @ str_exn e))])
               (call (Sleep Cooldown 60) (\<lambda>w. sleep E w 60) w1)"
  using assms by (simp add: loop_body_def py_sleep_num)

lemma loop_body_escapes:
  assumes "cycle self E w = (Inl e, w1, t1)" and "\<not> is_Exception e"
  shows "loop_body self E w = (Inl e, w1, t1)"
  using assms by (simp add: loop_body_def)

lemma loop_body_trace_head:
  "\<exists>rest. trace_of (loop_body self E w) = (w, Get_working_proxy) # rest"
proof -
  obtain rest where h: "trace_of (cycle self E w) = (w, Get_working_proxy) # rest"
    using cycle_trace_head [of self E w] by auto
  obtain r w1 t1 where c: "cycle self E w = (r, w1, t1)"
    by (cases "cycle self E w") auto
  with h have t1: "t1 = (w, Get_working_proxy) # rest" by simp
  show ?thesis
  proof (cases r)
    case (Inr u)
    with c t1 loop_body_returned [of self E w u w1 t1] show ?thesis by simp
  next
    case (Inl e)
    with c have c': "cycle self E w = (Inl e, w1, t1)" by simp
    show ?thesis
    proof (cases "is_Exception e")
      case True
      from loop_body_caught [OF c' True] t1 show ?thesis by simp
    next
      case False
      from loop_body_escapes [OF c' False] t1 show ?thesis by simp
    qed
  qed
qed

lemma run_loop_step:
  "run_loop (Suc k) self E w
     = after [(w, Poll (running E w))]
         (if running E w then act_bind (loop_body self E) (\<lambda>_. run_loop k self E) w
          else (Inr Returned, w, []))"
  by (simp add: act_return_def)

declare run_loop.simps(2) [simp del]

lemma run_loop_stopped:
  assumes "\<not> running E w"
  shows "run_loop (Suc k) self E w = (Inr Returned, w, [(w, Poll False)])"
  using assms by (simp add: run_loop_step)

lemma run_loop_trace_head:
  assumes "running E w"
  shows "\<exists>rest. trace_of (run_loop (Suc k) self E w)
           = [(w, Poll True), (w, Get_working_proxy)] @ rest"
proof -
  obtain rest where h: "trace_of (loop_body self E w) = (w, Get_working_proxy) # rest"
    using loop_body_trace_head [of self E w] by auto
  obtain r w1 t1 where b: "loop_body self E w = (r, w1, t1)"
    by (cases "loop_body self E w") auto
  with h have "t1 = (w, Get_working_proxy) # rest" by simp
  with b assms show ?thesis
    by (cases r) (simp_all add: run_loop_step act_bind_def)
qed

section \<open>An exception in a cycle\<close>

text \<open>
  Claim C3. Let a cycle raise an exception (an instance of \<^verbatim>\<open>Exception\<close>), and let the
  sleep of the handler return. Then the pass of the loop returns: after the calls of the
  cycle it logs the error and sleeps 60 seconds, whatever the configuration says, and the
  loop goes on as it would from the world after the sleep; if the flag is up there, the
  next thing is the acquisition of a proxy, that is, the next cycle. A cycle raises what
  the acquisition of the proxy raises, what the discovery raises and what leaves the loop
  over the deals.
\<close>

theorem cycle_resilience:
  assumes "cycle self E w = (Inl e, w1, t1)"
    and "is_Exception e"
    and "sleep E w1 60 = (Inr (), w2)"
  shows "loop_body self E w
           = (Inr (), w2,
              t1 @ [(w1, Log_error (''Error in main loop: '' @ str_exn e)), (w1, Sleep Cooldown 60)])
       \<and> (running E w \<longrightarrow>
             run_loop (Suc k) self E w
               = after ((w, Poll True) # t1
                        @ [(w1, Log_error (''Error in main loop: '' @ str_exn e)),
                           (w1, Sleep Cooldown 60)])
                   (run_loop k self E w2))
       \<and> (running E w2 \<longrightarrow>
             (\<exists>rest. trace_of (run_loop (Suc k) self E w2)
                = [(w2, Poll True), (w2, Get_working_proxy)] @ rest))
       \<and> (\<forall>x wa. get_working_proxy E w = (Inl x, wa) \<longrightarrow>
             cycle self E w = (Inl x, wa, [(w, Get_working_proxy)]))
       \<and> (\<forall>x wa wb. get_working_proxy E w = (Inr (), wa) \<and> get_deals E wa = (Inl x, wb) \<longrightarrow>
             cycle self E w = (Inl x, wb, [(w, Get_working_proxy), (wa, Get_deals)]))
       \<and> (\<forall>x wa wb wc batch t. get_working_proxy E w = (Inr (), wa)
               \<and> get_deals E wa = (Inr batch, wb)
               \<and> for_deals self E batch 0 wb = (Inl x, wc, t) \<longrightarrow>
             cycle self E w
               = (Inl x, wc,
                  [(w, Get_working_proxy), (wa, Get_deals),
                   (wb, Log_info (''Found '' @ show_nat (length batch) @ '' potential deals''))]
                  @ t))"
proof -
  have body: "loop_body self E w
      = (Inr (), w2,
         t1 @ [(w1, Log_error (''Error in main loop: '' @ str_exn e)), (w1, Sleep Cooldown 60)])"
    using loop_body_caught [OF assms(1,2)] assms(3) by (simp add: call_def)
  have loop: "run_loop (Suc k) self E w
      = after ((w, Poll True) # t1
               @ [(w1, Log_error (''Error in main loop: '' @ str_exn e)), (w1, Sleep Cooldown 60)])
          (run_loop k self E w2)"
    if "running E w"
    using that body by (simp add: run_loop_step act_bind_def)
  from body loop run_loop_trace_head [of E w2 k self]
    cycle_proxy_raise [of E w _ _ self] cycle_discovery_raise [of E w _ _ _ _ self]
    cycle_batch_raise [of E w _ _ _ _ self]
  show ?thesis by blast
qed

theorem cycle_resilience_witness:
  "cycle demo_bot (demo_env 99 (fault_at 1 (Exn OtherException ''timed out'')) [kettle]) start
     = (Inl (Exn OtherException ''timed out''), tick (tick start),
        [(start, Get_working_proxy), (tick start, Get_deals)])
   \<and> is_Exception (Exn OtherException ''timed out'')
   \<and> sleep (demo_env 99 (fault_at 1 (Exn OtherException ''timed out'')) [kettle])
         (tick (tick start)) 60
     = (Inr (), tick (tick (tick start)))
   \<and> loop_body demo_bot (demo_env 99 (fault_at 1 (Exn OtherException ''timed out'')) [kettle]) start
     = (Inr (), tick (tick (tick start)),
        [(start, Get_working_proxy), (tick start, Get_deals),
         (tick (tick start), Log_error ''Error in main loop: timed out''),
         (tick (tick start), Sleep Cooldown 60)])
   \<and> take 2 (trace_of (run_loop (Suc 0) demo_bot
         (demo_env 99 (fault_at 1 (Exn OtherException ''timed out'')) [kettle])
         (tick (tick (tick start)))))
     = [(tick (tick (tick start)), Poll True), (tick (tick (tick start)), Get_working_proxy)]"
proof -
  let ?F = "demo_env 99 (fault_at 1 (Exn OtherException ''timed out'')) [kettle]"
  have c: "cycle demo_bot ?F start
      = (Inl (Exn OtherException ''timed out''), tick (tick start),
         [(start, Get_working_proxy), (tick start, Get_deals)])"
    by code_simp
  have x: "is_Exception (Exn OtherException ''timed out'')"
    by code_simp
  have s: "sleep ?F (tick (tick start)) 60 = (Inr (), tick (tick (tick start)))"
    by code_simp
  have r: "running ?F (tick (tick (tick start)))"
    by code_simp
  note th = cycle_resilience [OF c x s, of 0]
  from th have b: "loop_body demo_bot ?F start
      = (Inr (), tick (tick (tick start)),
         [(start, Get_working_proxy), (tick start, Get_deals),
          (tick (tick start), Log_error ''Error in main loop: timed out''),
          (tick (tick start), Sleep Cooldown 60)])"
    by simp
  from th r obtain rest where "trace_of (run_loop (Suc 0) demo_bot ?F (tick (tick (tick start))))
      = [(tick (tick (tick start)), Poll True), (tick (tick (tick start)), Get_working_proxy)] @ rest"
    by blast
  then have n: "take 2 (trace_of (run_loop (Suc 0) demo_bot ?F (tick (tick (tick start)))))
      = [(tick (tick (tick start)), Poll True), (tick (tick (tick start)), Get_working_proxy)]"
    by simp
  from c x s b n show ?thesis by simp
qed

section \<open>Startup with keys missing\<close>

lemma init_missing_key:
  assumes "isl (subscript2 cfg ''telegram'' ''bot_token'')
         \<or> isl (subscript2 cfg ''telegram'' ''channel_id'')
         \<or> isl (subscript2 cfg ''database'' ''path'')
         \<or> isl (subscript2 cfg ''scraping'' ''max_proxies'')"
  shows "isl (init E cfg)"
  using assms by (auto simp add: init_def bind_exn_def split: sum.splits)

lemma init_config:
  assumes "init E cfg = Inr self"
  shows "config self = cfg"
  using assms by (auto simp add: init_def bind_exn_def split: sum.splits)

lemma initialize_no_retention:
  assumes "isl (subscript2 (config self) ''database'' ''retention_days'')"
  shows "isl (result_of (initialize self E w))
       \<and> events_of (initialize self E w) = [Proxy_initialize]"
proof (cases "proxy_initialize E w")
  case (Pair r w1)
  from assms obtain e where e: "subscript2 (config self) ''database'' ''retention_days'' = Inl e"
    by (cases "subscript2 (config self) ''database'' ''retention_days''") auto
  show ?thesis
  proof (cases r)
    case (Inl x)
    with Pair show ?thesis by (simp add: initialize_def act_bind_call_Inl)
  next
    case (Inr u)
    with Pair e show ?thesis by (simp add: initialize_def act_bind_call_Inr)
  qed
qed

lemma run_forever_no_retention:
  assumes "isl (subscript2 (config self) ''database'' ''retention_days'')"
  shows "isl (result_of (run_forever n self E w))
       \<and> events_of (run_forever n self E w) = [Log_info ''Starting Deals Bot...'', Proxy_initialize]"
proof -
  obtain r w1 t1 where i: "initialize self E w = (r, w1, t1)"
    by (cases "initialize self E w") auto
  with initialize_no_retention [OF assms, of E w]
  obtain e where "r = Inl e" "map snd t1 = [Proxy_initialize]"
    by (cases r) auto
  with i show ?thesis by (simp add: run_forever_def act_bind_Inl)
qed

text \<open>
  Claim C7, as the spec states it, makes every missing key fatal at startup. Three keys
  are read later only: the affiliate id when a message is rendered, the minimum delay
  after a posted deal, the interval after a batch. Without any one of them the bot is
  built, \<^verbatim>\<open>run_forever\<close> runs discovery cycles and returns when the flag drops.
\<close>

theorem missing_key_fatal_counterexample:
  "isl (subscript2 no_affiliate_config ''amazon'' ''affiliate_id'')
   \<and> init (demo_env 14 no_faults [kettle]) no_affiliate_config = Inr (bot_of no_affiliate_config)
   \<and> result_of (run_forever 4 (bot_of no_affiliate_config) (demo_env 14 no_faults [kettle]) start)
       = Inr Returned
   \<and> Get_deals \<in> set (events_of
         (run_forever 4 (bot_of no_affiliate_config) (demo_env 14 no_faults [kettle]) start))
   \<and> isl (subscript3 no_delay_config ''scraping'' ''request_delay'' ''min'')
   \<and> init (demo_env 14 no_faults [kettle]) no_delay_config = Inr (bot_of no_delay_config)
   \<and> result_of (run_forever 4 (bot_of no_delay_config) (demo_env 14 no_faults [kettle]) start)
       = Inr Returned
   \<and> Get_deals \<in> set (events_of
         (run_forever 4 (bot_of no_delay_config) (demo_env 14 no_faults [kettle]) start))
   \<and> isl (subscript2 no_interval_config ''scraping'' ''update_interval_minutes'')
   \<and> init (demo_env 14 no_faults [kettle]) no_interval_config = Inr (bot_of no_interval_config)
   \<and> result_of (run_forever 4 (bot_of no_interval_config) (demo_env 14 no_faults [kettle]) start)
       = Inr Returned
   \<and> Get_deals \<in> set (events_of
         (run_forever 4 (bot_of no_interval_config) (demo_env 14 no_faults [kettle]) start))"
  by code_simp

text \<open>
  Claim C7, amended. A configuration without \<open>telegram.bot_token\<close>,
  \<open>telegram.channel_id\<close>, \<open>database.path\<close> or \<open>scraping.max_proxies\<close> fails in the
  constructor. A bot whose configuration has no \<open>database.retention_days\<close> fails in
  \<^verbatim>\<open>run_forever\<close> before the loop: the run ends with the error, and its only calls are
  the first log line and the initialization of the proxies. (The constructor keeps the
  configuration it was given.)
\<close>

theorem missing_startup_key_is_fatal:
  "(isl (subscript2 cfg ''telegram'' ''bot_token'')
      \<or> isl (subscript2 cfg ''telegram'' ''channel_id'')
      \<or> isl (subscript2 cfg ''database'' ''path'')
      \<or> isl (subscript2 cfg ''scraping'' ''max_proxies'') \<longrightarrow> isl (init E cfg))
   \<and> (init E cfg = Inr self \<longrightarrow> config self = cfg)
   \<and> (isl (subscript2 (config self) ''database'' ''retention_days'') \<longrightarrow>
         isl (result_of (run_forever n self E w))
         \<and> events_of (run_forever n self E w)
             = [Log_info ''Starting Deals Bot...'', Proxy_initialize])"
  using init_missing_key [of cfg E] init_config [of E cfg self]
    run_forever_no_retention [of self n E w]
  by blast

theorem missing_startup_key_is_fatal_witness:
  "isl (subscript2 (YDict []) ''telegram'' ''bot_token'')
   \<and> isl (init (demo_env 14 no_faults [kettle]) (YDict []))
   \<and> init (demo_env 14 no_faults [kettle]) no_retention_config = Inr (bot_of no_retention_config)
   \<and> config (bot_of no_retention_config) = no_retention_config
   \<and> isl (subscript2 (config (bot_of no_retention_config)) ''database'' ''retention_days'')
   \<and> isl (result_of (run_forever 4 (bot_of no_retention_config)
              (demo_env 14 no_faults [kettle]) start))
   \<and> events_of (run_forever 4 (bot_of no_retention_config) (demo_env 14 no_faults [kettle]) start)
       = [Log_info ''Starting Deals Bot...'', Proxy_initialize]"
proof -
  let ?E = "demo_env 14 no_faults [kettle]"
  have a: "isl (subscript2 (YDict []) ''telegram'' ''bot_token'')"
    by code_simp
  have b: "init ?E no_retention_config = Inr (bot_of no_retention_config)"
    by code_simp
  have c: "isl (subscript2 (config (bot_of no_retention_config)) ''database'' ''retention_days'')"
    by code_simp
  from a missing_startup_key_is_fatal [of "YDict []" ?E]
  have 1: "isl (init ?E (YDict []))" by blast
  from b c missing_startup_key_is_fatal [of no_retention_config ?E "bot_of no_retention_config" 4 start]
  have 2: "config (bot_of no_retention_config) = no_retention_config"
    and 3: "isl (result_of (run_forever 4 (bot_of no_retention_config) ?E start))"
    and 4: "events_of (run_forever 4 (bot_of no_retention_config) ?E start)
       = [Log_info ''Starting Deals Bot...'', Proxy_initialize]"
    by blast+
  from a 1 b 2 c 3 4 show ?thesis by simp
qed

end
